theory Spec2Isabelle
  imports Complex_Main
begin

section \<open>Values exchanged with the JavaScript runtime\<close>

text \<open>
  The listener of \<^verbatim>\<open>resilientEventListener\<close> inspects values produced by
  \<^verbatim>\<open>JSON.parse\<close>.  A parsed value is a tree; reading a property that is not there
  yields \<^verbatim>\<open>undefined\<close>, which is why \<open>JUndefined\<close> is part of the type although
  no parser returns it at top level.  An object is the association list of its own
  properties (the first binding of a key is the one that counts).

  A number of JavaScript is a double.  \<^verbatim>\<open>JSON.parse\<close> returns a finite double, which
  is a rational number, or an infinity for a literal out of range; it never returns
  \<^verbatim>\<open>NaN\<close>, and the two zeros are equal and print alike.
\<close>

datatype number = Num rat | Infinity | NegInfinity

datatype json =
    JUndefined
  | JNull
  | JBool bool
  | JNum number
  | JStr string
  | JArr "json list"
  | JObj "(string \<times> json) list"

datatype exn =
    TypeError string
  | SyntaxError string
  | RangeError string
  | JsError string

text \<open>A name between single quotes, as the runtime and the listener print it.\<close>

definition quoted :: "string \<Rightarrow> string" where
  "quoted x = CHR 0x27 # x @ [CHR 0x27]"

text \<open>
  \<^verbatim>\<open>v.k\<close>: reading a property of \<^verbatim>\<open>undefined\<close> or \<^verbatim>\<open>null\<close> throws a
  \<^verbatim>\<open>TypeError\<close>.  The handler reads the names \<^verbatim>\<open>id\<close>, \<^verbatim>\<open>result\<close>,
  \<^verbatim>\<open>method\<close>, \<^verbatim>\<open>params\<close> and \<^verbatim>\<open>subscription\<close> only; none of them is defined
  on a number, a string, a boolean or an array.
\<close>

fun get_prop :: "json \<Rightarrow> string \<Rightarrow> exn + json" where
  "get_prop JUndefined k = Inl (TypeError (''Cannot read properties of undefined (reading '' @ quoted k @ '')''))"
| "get_prop JNull k = Inl (TypeError (''Cannot read properties of null (reading '' @ quoted k @ '')''))"
| "get_prop (JObj kvs) k = Inr (case map_of kvs k of None \<Rightarrow> JUndefined | Some v \<Rightarrow> v)"
| "get_prop (JBool b) k = Inr JUndefined"
| "get_prop (JNum n) k = Inr JUndefined"
| "get_prop (JStr s) k = Inr JUndefined"
| "get_prop (JArr xs) k = Inr JUndefined"

text \<open>\<^verbatim>\<open>v?.k\<close>: optional chaining gives \<^verbatim>\<open>undefined\<close> where \<^verbatim>\<open>v.k\<close> would throw.\<close>

definition opt_prop :: "json \<Rightarrow> string \<Rightarrow> json" where
  "opt_prop v k = (case get_prop v k of Inl e \<Rightarrow> JUndefined | Inr x \<Rightarrow> x)"

text \<open>
  \<^verbatim>\<open>a === b\<close> on values that come from two different calls of \<^verbatim>\<open>JSON.parse\<close>, or
  from a parsed value and a literal: primitives compare by value, and an array or an
  object is never identical to one from elsewhere.
\<close>

fun strict_eq :: "json \<Rightarrow> json \<Rightarrow> bool" where
  "strict_eq JUndefined JUndefined = True"
| "strict_eq JNull JNull = True"
| "strict_eq (JBool a) (JBool b) = (a = b)"
| "strict_eq (JNum a) (JNum b) = (a = b)"
| "strict_eq (JStr a) (JStr b) = (a = b)"
| "strict_eq a b = False"

text \<open>
  The decimal digits of a natural number, as an array index or the status code of a
  response prints.
\<close>

fun digits :: "nat \<Rightarrow> string" where
  "digits n = (if n < 10 then [char_of (48 + n)] else digits (n div 10) @ [char_of (48 + n mod 10)])"

text \<open>
  \<^verbatim>\<open>`${v}`\<close>: the string conversion of a template literal.  How a number prints is
  the runtime's business and is the parameter \<open>shown\<close>.  An object whose own property
  \<^verbatim>\<open>toString\<close> is parsed data (so not callable) has no primitive value, and the
  conversion throws; an array joins the conversions of its elements, the empty string
  standing for \<^verbatim>\<open>null\<close> and \<^verbatim>\<open>undefined\<close>.
\<close>

fun to_string :: "(number \<Rightarrow> string) \<Rightarrow> json \<Rightarrow> exn + string"
  and join_elems :: "(number \<Rightarrow> string) \<Rightarrow> json list \<Rightarrow> exn + string" where
  "to_string shown JUndefined = Inr ''undefined''"
| "to_string shown JNull = Inr ''null''"
| "to_string shown (JBool b) = Inr (if b then ''true'' else ''false'')"
| "to_string shown (JNum n) = Inr (shown n)"
| "to_string shown (JStr s) = Inr s"
| "to_string shown (JArr xs) = join_elems shown xs"
| "to_string shown (JObj kvs) =
     (if ''toString'' \<in> set (map fst kvs)
      then Inl (TypeError ''Cannot convert object to primitive value'')
      else Inr ''[object Object]'')"
| "join_elems shown [] = Inr []"
| "join_elems shown (x # xs) =
     (case (if x = JUndefined \<or> x = JNull then Inr [] else to_string shown x) of
        Inl e \<Rightarrow> Inl e
      | Inr a \<Rightarrow>
          (if xs = [] then Inr a
           else (case join_elems shown xs of Inl e \<Rightarrow> Inl e | Inr b \<Rightarrow> Inr (a @ '','' @ b))))"

declare digits.simps [simp del]

section \<open>Configuration and external collaborators\<close>

datatype LogLevel = Debug | Info | Warn | Error

datatype LogDescription = LogDescription (ld_name: string) (ld_args: json)

text \<open>
  \<^verbatim>\<open>ResilientEventListenerArgs\<close>.  The optional log sink is never read by the code
  (see \<open>log\<close> below), so only its presence is kept.  The optional callback is the caller's
  code: it is given the decoded event and either returns (\<open>True\<close>) or throws.  The ABI is
  used through \<^verbatim>\<open>ethers\<close> only, see \<open>externals\<close>.
\<close>

record ResilientEventListenerArgs =
  rpcUrl :: string
  contractAddress :: string
  eventName :: string
  log_sink :: bool
  callback :: "(LogDescription option \<Rightarrow> bool) option"
  keepAliveCheckInterval :: "nat option"
  expectedPongBack :: "nat option"

text \<open>
  What the runtime and the libraries compute, taken as parameters: \<^verbatim>\<open>JSON.parse\<close>
  (\<open>None\<close> when it throws), \<^verbatim>\<open>contract.interface.parseLog\<close> of ethers (\<open>Inl\<close> what
  it throws, \<open>Inr None\<close> when it returns \<^verbatim>\<open>null\<close>), the text that a number prints
  as, and the topic hash of the configured event.  The URL and the event name are taken to
  be valid, so that \<^verbatim>\<open>new WebSocket\<close> and \<^verbatim>\<open>contract.getEvent\<close> return.
\<close>

record externals =
  JSON_parse :: "string \<Rightarrow> json option"
  parseLog :: "json \<Rightarrow> exn + LogDescription option"
  Number_toString :: "number \<Rightarrow> string"
  topicHash :: string

definition DEFAULT_EXPECTED_PONG_BACK :: nat where
  "DEFAULT_EXPECTED_PONG_BACK = 15000"

definition DEFAULT_KEEP_ALIVE_CHECK_INTERVAL :: nat where
  "DEFAULT_KEEP_ALIVE_CHECK_INTERVAL = 60 * 1000"

text \<open>\<^verbatim>\<open>x || d\<close> on an optional number: \<^verbatim>\<open>undefined\<close> and \<^verbatim>\<open>0\<close> are falsy.\<close>

definition or_default :: "nat option \<Rightarrow> nat \<Rightarrow> nat" where
  "or_default x d = (case x of None \<Rightarrow> d | Some n \<Rightarrow> if n = 0 then d else n)"

section \<open>The state of one listener\<close>

datatype ReadyState = CONNECTING | OPEN | CLOSING | CLOSED

text \<open>
  One record per call of \<^verbatim>\<open>connect\<close> that got as far as \<^verbatim>\<open>new WebSocket\<close>: the
  socket's \<^verbatim>\<open>readyState\<close> and the closure variable \<^verbatim>\<open>subscriptionId\<close> of that call.
\<close>

record connection =
  readyState :: ReadyState
  subscriptionId :: json

text \<open>The three callbacks the code hands to \<^verbatim>\<open>setTimeout\<close> and \<^verbatim>\<open>setInterval\<close>.\<close>

datatype timer_kind =
    Reconnect
  | KeepAlive nat
  | PingTimeout

datatype ws_data = DString string | DBuffer string | DOther

datatype jsval =
    VUndefined
  | VNumber nat
  | VString string
  | VFunction
  | VJson json
  | VError exn
  | VData ws_data

text \<open>
  What the listener does to the outside, in order.  \<open>LogCall\<close> marks a call of the
  internal helper \<^verbatim>\<open>log\<close>; \<open>SinkCall\<close> is the call \<^verbatim>\<open>args.log(...)\<close> inside it,
  kept with the message as the helper was given it, before the time of day is put in front.
\<close>

datatype action =
    NewWebSocket nat string
  | Send nat json
  | Close nat
  | Terminate nat
  | SetTimer nat timer_kind nat
  | ClearTimer nat
  | Callback "LogDescription option"
  | LogCall LogLevel string "jsval list"
  | SinkCall LogLevel string "jsval list"

text \<open>
  The first five fields are the variables of the closure of \<^verbatim>\<open>resilientEventListener\<close>;
  a timer handle or a socket is the number it was created with.  The others are the
  runtime: every socket created, the pending timers (handle, callback, due time in ms),
  the clock, and the actions so far.
\<close>

record listener =
  ws :: "nat option"
  pingTimeout :: "nat option"
  keepAliveInterval :: "nat option"
  stopped :: bool
  reconnectDelay :: nat
  conns :: "connection list"
  timers :: "(nat \<times> timer_kind \<times> nat) list"
  next_timer :: nat
  now :: nat
  trace :: "action list"

definition emit :: "action \<Rightarrow> listener \<Rightarrow> listener" where
  "emit a s = s\<lparr>trace := trace s @ [a]\<rparr>"

subsection \<open>Timers of the runtime\<close>

text \<open>Node replaces a delay below 1 ms or above \<open>2^31 - 1\<close> ms by 1 ms.\<close>

definition timer_delay :: "nat \<Rightarrow> nat" where
  "timer_delay d = (if d < 1 \<or> 2147483647 < d then 1 else d)"

definition set_timer :: "timer_kind \<Rightarrow> nat \<Rightarrow> listener \<Rightarrow> nat \<times> listener" where
  "set_timer k d s =
     (next_timer s,
      emit (SetTimer (next_timer s) k d)
        (s\<lparr>timers := timers s @ [(next_timer s, k, now s + timer_delay d)],
           next_timer := Suc (next_timer s)\<rparr>))"

definition clear_timer :: "nat \<Rightarrow> listener \<Rightarrow> listener" where
  "clear_timer h s =
     emit (ClearTimer h) (s\<lparr>timers := filter (\<lambda>(i, k, due). i \<noteq> h) (timers s)\<rparr>)"

subsection \<open>Sockets of the ws library\<close>

definition ready :: "listener \<Rightarrow> nat \<Rightarrow> ReadyState" where
  "ready s c = (if c < length (conns s) then readyState (conns s ! c) else CLOSED)"

definition set_ready :: "nat \<Rightarrow> ReadyState \<Rightarrow> listener \<Rightarrow> listener" where
  "set_ready c r s =
     (if c < length (conns s)
      then s\<lparr>conns := (conns s)[c := (conns s ! c)\<lparr>readyState := r\<rparr>]\<rparr>
      else s)"

text \<open>
  \<^verbatim>\<open>send\<close> throws while the socket is connecting and drops the data once it is closing
  or closed; \<^verbatim>\<open>close\<close> and \<^verbatim>\<open>terminate\<close> do nothing on a closed socket and leave any
  other one closing.
\<close>

definition ws_send :: "nat \<Rightarrow> json \<Rightarrow> listener \<Rightarrow> exn + listener" where
  "ws_send c msg s =
     (if ready s c = CONNECTING
      then Inl (JsError ''WebSocket is not open: readyState 0 (CONNECTING)'')
      else if ready s c = OPEN then Inr (emit (Send c msg) s)
      else Inr s)"

definition ws_close :: "nat \<Rightarrow> listener \<Rightarrow> listener" where
  "ws_close c s =
     emit (Close c) (if ready s c = CLOSED then s else set_ready c CLOSING s)"

definition ws_terminate :: "nat \<Rightarrow> listener \<Rightarrow> listener" where
  "ws_terminate c s =
     emit (Terminate c) (if ready s c = CLOSED then s else set_ready c CLOSING s)"

section \<open>The listener\<close>

subsection \<open>The helper \<^verbatim>\<open>log\<close>\<close>

text \<open>
  \<^verbatim>\<open>const log = (level, message, ...args) => { if (args.log) { args.log(...) } }\<close>.
  Inside the helper the name \<^verbatim>\<open>args\<close> is the rest parameter, an array, and not the
  configuration object of the enclosing function: \<^verbatim>\<open>args.log\<close> is the property
  \<^verbatim>\<open>log\<close> of that array.  An array has its elements under their indices, its
  \<^verbatim>\<open>length\<close>, and the methods it inherits.
\<close>

definition array_methods :: "string list" where
  "array_methods =
     [''at'', ''concat'', ''constructor'', ''copyWithin'', ''entries'', ''every'', ''fill'',
      ''filter'', ''find'', ''findIndex'', ''findLast'', ''findLastIndex'', ''flat'',
      ''flatMap'', ''forEach'', ''hasOwnProperty'', ''includes'', ''indexOf'',
      ''isPrototypeOf'', ''join'', ''keys'', ''lastIndexOf'', ''map'', ''pop'',
      ''propertyIsEnumerable'', ''push'', ''reduce'', ''reduceRight'', ''reverse'',
      ''shift'', ''slice'', ''some'', ''sort'', ''splice'', ''toLocaleString'',
      ''toReversed'', ''toSorted'', ''toSpliced'', ''toString'', ''unshift'', ''valueOf'',
      ''values'', ''with'']"

definition array_prop :: "jsval list \<Rightarrow> string \<Rightarrow> jsval" where
  "array_prop xs k =
     (if k = ''length'' then VNumber (length xs)
      else if k \<in> set array_methods then VFunction
      else (case filter (\<lambda>i. digits i = k) [0 ..< length xs] of
              [] \<Rightarrow> VUndefined
            | i # rest \<Rightarrow> xs ! i))"

fun json_truthy :: "json \<Rightarrow> bool" where
  "json_truthy JUndefined = False"
| "json_truthy JNull = False"
| "json_truthy (JBool b) = b"
| "json_truthy (JNum n) = (n \<noteq> Num 0)"
| "json_truthy (JStr s) = (s \<noteq> [])"
| "json_truthy (JArr xs) = True"
| "json_truthy (JObj kvs) = True"

fun truthy :: "jsval \<Rightarrow> bool" where
  "truthy VUndefined = False"
| "truthy (VNumber n) = (n \<noteq> 0)"
| "truthy (VString s) = (s \<noteq> [])"
| "truthy VFunction = True"
| "truthy (VJson j) = json_truthy j"
| "truthy (VError e) = True"
| "truthy (VData d) = (d \<noteq> DString [])"

definition log :: "LogLevel \<Rightarrow> string \<Rightarrow> jsval list \<Rightarrow> listener \<Rightarrow> listener" where
  "log level message args s =
     (let s1 = emit (LogCall level message args) s
      in if truthy (array_prop args ''log'')
         then emit (SinkCall level message args) s1
         else s1)"

subsection \<open>\<^verbatim>\<open>connect\<close> and the requests it builds\<close>

definition request :: "externals \<Rightarrow> ResilientEventListenerArgs \<Rightarrow> json" where
  "request E a =
     JObj [(''id'', JNum (Num 1)),
           (''method'', JStr ''eth_subscribe''),
           (''params'', JArr [JStr ''logs'',
               JObj [(''topics'', JArr [JStr (topicHash E)]),
                     (''address'', JStr (contractAddress a))]])]"

definition ping :: json where
  "ping = JObj [(''id'', JNum (Num 2)), (''method'', JStr ''net_listening''), (''params'', JArr [])]"

definition connect :: "externals \<Rightarrow> ResilientEventListenerArgs \<Rightarrow> listener \<Rightarrow> listener" where
  "connect E a s =
     (if stopped s then log Info ''Listener stopped, not reconnecting.'' [] s
      else
        let s1 = log Info (''Connecting to WebSocket at '' @ rpcUrl a) [] s;
            c = length (conns s1);
            s2 = emit (NewWebSocket c (rpcUrl a))
                   (s1\<lparr>ws := Some c,
                       conns := conns s1 @ [\<lparr>readyState = CONNECTING, subscriptionId = JUndefined\<rparr>]\<rparr>)
        in log Debug (''Subscribing to event listener with topic hash: '' @ topicHash E) [] s2)"

subsection \<open>\<^verbatim>\<open>ws.onopen\<close> and the keep-alive timers\<close>

definition onopen :: "externals \<Rightarrow> ResilientEventListenerArgs \<Rightarrow> listener \<Rightarrow> exn + listener" where
  "onopen E a s =
     (let s1 = log Info ''WebSocket connection opened.'' [] s;
          s2 = s1\<lparr>reconnectDelay := 1000\<rparr>
      in case ws s2 of
           None \<Rightarrow> Inl (TypeError (''Cannot read properties of null (reading '' @ quoted ''send'' @ '')''))
         | Some w \<Rightarrow>
             (case ws_send w (request E a) s2 of
                Inl e \<Rightarrow> Inl e
              | Inr s3 \<Rightarrow>
                  let keepAliveCheckInterval' =
                        or_default (keepAliveCheckInterval a) DEFAULT_KEEP_ALIVE_CHECK_INTERVAL;
                      (h, s4) = set_timer (KeepAlive keepAliveCheckInterval') keepAliveCheckInterval' s3
                  in Inr (s4\<lparr>keepAliveInterval := Some h\<rparr>)))"

text \<open>The callback of \<^verbatim>\<open>setInterval\<close>.\<close>

definition keepAliveTick :: "ResilientEventListenerArgs \<Rightarrow> listener \<Rightarrow> exn + listener" where
  "keepAliveTick a s =
     (case ws s of
        None \<Rightarrow> Inr s
      | Some w \<Rightarrow>
          if ready s w = OPEN then
            let s1 = log Debug (''Performing health check for subscription to '' @ quoted (eventName a) @ ''.'') [] s
            in case ws_send w ping s1 of
                 Inl e \<Rightarrow> Inl e
               | Inr s2 \<Rightarrow>
                   let expectedPongBack' = or_default (expectedPongBack a) DEFAULT_EXPECTED_PONG_BACK;
                       (h, s3) = set_timer PingTimeout expectedPongBack' s2
                   in Inr (s3\<lparr>pingTimeout := Some h\<rparr>)
          else Inr s)"

text \<open>The callback of the \<^verbatim>\<open>setTimeout\<close> armed by a keep-alive tick.\<close>

definition pingTimeoutFired :: "listener \<Rightarrow> listener" where
  "pingTimeoutFired s =
     (case ws s of
        None \<Rightarrow> s
      | Some w \<Rightarrow> ws_terminate w (log Warn ''Ping timeout, terminating WebSocket connection.'' [] s))"

subsection \<open>\<^verbatim>\<open>ws.onmessage\<close>\<close>

definition set_subscriptionId :: "nat \<Rightarrow> json \<Rightarrow> listener \<Rightarrow> listener" where
  "set_subscriptionId c v s =
     (if c < length (conns s)
      then s\<lparr>conns := (conns s)[c := (conns s ! c)\<lparr>subscriptionId := v\<rparr>]\<rparr>
      else s)"

definition get_subscriptionId :: "listener \<Rightarrow> nat \<Rightarrow> json" where
  "get_subscriptionId s c =
     (if c < length (conns s) then subscriptionId (conns s ! c) else JUndefined)"

text \<open>
  The part of the handler after the \<^verbatim>\<open>try\<close> block, on the parsed value.  The number
  \<open>c\<close> is the call of \<^verbatim>\<open>connect\<close> whose closure the handler belongs to.  Nothing
  here is inside a \<^verbatim>\<open>try\<close>: what throws leaves the handler.
\<close>

definition dispatch ::
  "externals \<Rightarrow> ResilientEventListenerArgs \<Rightarrow> nat \<Rightarrow> json \<Rightarrow> listener \<Rightarrow> exn + listener" where
  "dispatch E a c parsedData s =
     (if strict_eq (opt_prop parsedData ''id'') (opt_prop (request E a) ''id'') then
        (case get_prop parsedData ''result'' of
           Inl e \<Rightarrow> Inl e
         | Inr r \<Rightarrow>
             let s1 = set_subscriptionId c r s
             in (case to_string (Number_toString E) r of
                   Inl e \<Rightarrow> Inl e
                 | Inr txt \<Rightarrow>
                     Inr (log Info (''Subscription to event '' @ quoted (eventName a)
                                     @ '' established with ID '' @ quoted txt @ ''.'') [] s1)))
      else if strict_eq (opt_prop parsedData ''id'') (opt_prop ping ''id'')
              \<and> strict_eq (opt_prop parsedData ''result'') (JBool True) then
        (let s1 = log Debug ''Health check successful.'' [] s
         in case pingTimeout s1 of
              None \<Rightarrow> Inr s1
            | Some h \<Rightarrow> Inr ((clear_timer h s1)\<lparr>pingTimeout := None\<rparr>))
      else if strict_eq (opt_prop parsedData ''method'') (JStr ''eth_subscription'') then
        (case get_prop parsedData ''params'' of
           Inl e \<Rightarrow> Inl e
         | Inr params \<Rightarrow>
             (case get_prop params ''subscription'' of
                Inl e \<Rightarrow> Inl e
              | Inr sub \<Rightarrow>
                  if strict_eq sub (get_subscriptionId s c) then
                    (case get_prop params ''result'' of
                       Inl e \<Rightarrow> Inl e
                     | Inr logData \<Rightarrow>
                         (case parseLog E logData of
                            Inl e \<Rightarrow> Inl e
                          | Inr eventLog \<Rightarrow>
                              let s1 = log Info
                                         (''Received event ''
                                            @ (case eventLog of None \<Rightarrow> ''undefined''
                                               | Some d \<Rightarrow> ld_name d) @ '':'')
                                         [case eventLog of None \<Rightarrow> VUndefined
                                          | Some d \<Rightarrow> VJson (ld_args d)] s
                              in (case callback a of
                                    None \<Rightarrow> Inr s1
                                  | Some f \<Rightarrow>
                                      if f eventLog then Inr (emit (Callback eventLog) s1)
                                      else Inl (JsError ''callback''))))
                  else Inr s))
      else Inr s)"

definition onmessage ::
  "externals \<Rightarrow> ResilientEventListenerArgs \<Rightarrow> nat \<Rightarrow> ws_data \<Rightarrow> listener \<Rightarrow> exn + listener" where
  "onmessage E a c data s =
     (case data of
        DString txt \<Rightarrow>
          (case JSON_parse E txt of
             None \<Rightarrow> Inr (log Error ''Failed to parse JSON from WebSocket message.''
                            [VError (SyntaxError txt)] s)
           | Some parsedData \<Rightarrow> dispatch E a c parsedData s)
      | DBuffer txt \<Rightarrow>
          (case JSON_parse E txt of
             None \<Rightarrow> Inr (log Error ''Failed to parse JSON from WebSocket message.''
                            [VError (SyntaxError txt)] s)
           | Some parsedData \<Rightarrow> dispatch E a c parsedData s)
      | DOther \<Rightarrow>
          Inr (log Warn ''Received unexpected data type from WebSocket.'' [VData DOther] s))"

subsection \<open>\<^verbatim>\<open>ws.onerror\<close>, \<^verbatim>\<open>ws.onclose\<close>, \<^verbatim>\<open>stop\<close>\<close>

definition onerror :: "string \<Rightarrow> listener \<Rightarrow> listener" where
  "onerror message s = log Error ''WebSocket error:'' [VString message] s"

definition onclose :: "listener \<Rightarrow> listener" where
  "onclose s =
     (let s1 = log Info ''WebSocket connection closed.'' [] s;
          s2 = (case keepAliveInterval s1 of None \<Rightarrow> s1 | Some h \<Rightarrow> clear_timer h s1);
          s3 = (case pingTimeout s2 of None \<Rightarrow> s2 | Some h \<Rightarrow> clear_timer h s2);
          s4 = s3\<lparr>ws := None\<rparr>
      in if \<not> stopped s4 then
           let (h, s5) = set_timer Reconnect (reconnectDelay s4) s4
           in s5\<lparr>reconnectDelay := min (reconnectDelay s5 * 2) 30000\<rparr>
         else s4)"

definition stop :: "listener \<Rightarrow> listener" where
  "stop s =
     (let s1 = log Info ''Stopping resilient event listener.'' [] s;
          s2 = s1\<lparr>stopped := True\<rparr>;
          s3 = (case ws s2 of None \<Rightarrow> s2 | Some w \<Rightarrow> (ws_close w s2)\<lparr>ws := None\<rparr>);
          s4 = (case keepAliveInterval s3 of None \<Rightarrow> s3 | Some h \<Rightarrow> clear_timer h s3)
      in (case pingTimeout s4 of None \<Rightarrow> s4 | Some h \<Rightarrow> clear_timer h s4))"

text \<open>The handler of \<^verbatim>\<open>unexpected-response\<close>, with the status code and message.\<close>

definition onunexpected :: "nat \<Rightarrow> string \<Rightarrow> listener \<Rightarrow> listener" where
  "onunexpected statusCode statusMessage s =
     stop (log Error (''Unexpected server response: '' @ digits statusCode @ '' '' @ statusMessage) [] s)"

section \<open>Events\<close>

text \<open>
  Everything the listener does happens in a handler that the runtime calls: a socket
  event on the socket of the \<open>c\<close>-th call of \<^verbatim>\<open>connect\<close>, a timer that fires, or
  the caller using the handle returned by \<^verbatim>\<open>resilientEventListener\<close>.
\<close>

datatype event =
    OpenEv nat
  | MessageEv nat ws_data
  | ErrorEv nat string
  | CloseEv nat
  | UnexpectedResponseEv nat nat string
  | TimerEv nat
  | StopEv

datatype error = Uncaught exn | NotEnabled

definition lift :: "exn + listener \<Rightarrow> error + listener" where
  "lift r = (case r of Inl e \<Rightarrow> Inl (Uncaught e) | Inr s \<Rightarrow> Inr s)"

definition remove_timer :: "nat \<Rightarrow> listener \<Rightarrow> listener" where
  "remove_timer h s = s\<lparr>timers := filter (\<lambda>(i, k, due). i \<noteq> h) (timers s)\<rparr>"

definition rearm_timer :: "nat \<Rightarrow> nat \<Rightarrow> listener \<Rightarrow> listener" where
  "rearm_timer h period s =
     s\<lparr>timers := map (\<lambda>(i, k, due). if i = h then (i, k, due + timer_delay period) else (i, k, due))
                     (timers s)\<rparr>"

text \<open>
  A timer fires at its due time.  A timeout is gone once it has fired; an interval is
  due again one period later.
\<close>

definition fire_timer ::
  "externals \<Rightarrow> ResilientEventListenerArgs \<Rightarrow> nat \<Rightarrow> listener \<Rightarrow> error + listener" where
  "fire_timer E a h s =
     (case map_of (timers s) h of
        None \<Rightarrow> Inl NotEnabled
      | Some (k, due) \<Rightarrow>
          if due \<noteq> now s then Inl NotEnabled
          else (case k of
                  Reconnect \<Rightarrow> Inr (connect E a (remove_timer h s))
                | PingTimeout \<Rightarrow> Inr (pingTimeoutFired (remove_timer h s))
                | KeepAlive period \<Rightarrow> lift (keepAliveTick a (rearm_timer h period s))))"

text \<open>
  One event at time \<open>t\<close>.  Time does not go back and no pending timer is skipped: an
  event at \<open>t\<close> is possible only when no timer was due before \<open>t\<close>.  A socket emits
  \<^verbatim>\<open>open\<close> or \<^verbatim>\<open>unexpected-response\<close> while connecting, messages while open or
  closing, and \<^verbatim>\<open>close\<close> once.  \<open>NotEnabled\<close> says that the runtime cannot produce
  the event in this state; \<open>Uncaught\<close> that the handler threw.
\<close>

definition step ::
  "externals \<Rightarrow> ResilientEventListenerArgs \<Rightarrow> listener \<Rightarrow> nat \<times> event \<Rightarrow> error + listener" where
  "step E a s te =
     (case te of (t, ev) \<Rightarrow>
        if t < now s \<or> list_ex (\<lambda>(h, k, due). due < t) (timers s) then Inl NotEnabled
        else
          let s0 = s\<lparr>now := t\<rparr>
          in (case ev of
                OpenEv c \<Rightarrow>
                  if ready s0 c = CONNECTING then lift (onopen E a (set_ready c OPEN s0))
                  else Inl NotEnabled
              | MessageEv c data \<Rightarrow>
                  if ready s0 c = OPEN \<or> ready s0 c = CLOSING then lift (onmessage E a c data s0)
                  else Inl NotEnabled
              | ErrorEv c message \<Rightarrow>
                  if ready s0 c \<noteq> CLOSED then Inr (onerror message s0) else Inl NotEnabled
              | CloseEv c \<Rightarrow>
                  if c < length (conns s0) \<and> ready s0 c \<noteq> CLOSED
                  then Inr (onclose (set_ready c CLOSED s0))
                  else Inl NotEnabled
              | UnexpectedResponseEv c statusCode statusMessage \<Rightarrow>
                  if ready s0 c = CONNECTING then Inr (onunexpected statusCode statusMessage s0)
                  else Inl NotEnabled
              | TimerEv h \<Rightarrow> fire_timer E a h s0
              | StopEv \<Rightarrow> Inr (stop s0)))"

fun run ::
  "externals \<Rightarrow> ResilientEventListenerArgs \<Rightarrow> listener \<Rightarrow> (nat \<times> event) list \<Rightarrow> error + listener" where
  "run E a s [] = Inr s"
| "run E a s (te # rest) =
     (case step E a s te of Inl e \<Rightarrow> Inl e | Inr s' \<Rightarrow> run E a s' rest)"

text \<open>
  \<^verbatim>\<open>resilientEventListener(args)\<close>: the variables are initialised, \<^verbatim>\<open>connect()\<close> is
  called once, and the handle is returned.
\<close>

definition initial :: listener where
  "initial =
     \<lparr>ws = None, pingTimeout = None, keepAliveInterval = None, stopped = False,
      reconnectDelay = 1000, conns = [], timers = [], next_timer = 0, now = 0, trace = []\<rparr>"

definition resilientEventListener :: "externals \<Rightarrow> ResilientEventListenerArgs \<Rightarrow> listener" where
  "resilientEventListener E a = connect E a initial"

section \<open>Observations\<close>

subsection \<open>On the actions and the timers\<close>

fun is_sink_call :: "action \<Rightarrow> bool" where
  "is_sink_call (SinkCall level message args) = True"
| "is_sink_call x = False"

text \<open>The delays of the reconnects scheduled so far, and the sockets created so far.\<close>

fun reconnect_delay_of :: "action \<Rightarrow> nat list" where
  "reconnect_delay_of (SetTimer h Reconnect d) = [d]"
| "reconnect_delay_of x = []"

definition reconnect_delays :: "action list \<Rightarrow> nat list" where
  "reconnect_delays tr = concat (map reconnect_delay_of tr)"

fun is_new_socket :: "action \<Rightarrow> bool" where
  "is_new_socket (NewWebSocket c url) = True"
| "is_new_socket x = False"

definition connection_attempts :: "action list \<Rightarrow> action list" where
  "connection_attempts tr = filter is_new_socket tr"

text \<open>The pending timers that will call \<^verbatim>\<open>connect\<close>.\<close>

definition reconnect_timers :: "listener \<Rightarrow> (nat \<times> timer_kind \<times> nat) list" where
  "reconnect_timers s = filter (\<lambda>(h, k, due). k = Reconnect) (timers s)"

subsection \<open>On messages\<close>

text \<open>The three tests of the message handler, as the source writes them.\<close>

definition is_handshake_ack :: "externals \<Rightarrow> ResilientEventListenerArgs \<Rightarrow> json \<Rightarrow> bool" where
  "is_handshake_ack E a parsedData =
     strict_eq (opt_prop parsedData ''id'') (opt_prop (request E a) ''id'')"

definition is_probe_ack :: "json \<Rightarrow> bool" where
  "is_probe_ack parsedData =
     (strict_eq (opt_prop parsedData ''id'') (opt_prop ping ''id'')
      \<and> strict_eq (opt_prop parsedData ''result'') (JBool True))"

definition is_notification :: "json \<Rightarrow> bool" where
  "is_notification parsedData =
     strict_eq (opt_prop parsedData ''method'') (JStr ''eth_subscription'')"

text \<open>
  A value that a template literal can print: any value but an object with a property
  \<^verbatim>\<open>toString\<close> of its own, taken alone or as an element of an array, at any depth.
\<close>

fun printable :: "json \<Rightarrow> bool"
  and all_printable :: "json list \<Rightarrow> bool" where
  "printable (JObj kvs) = (''toString'' \<notin> set (map fst kvs))"
| "printable (JArr xs) = all_printable xs"
| "printable JUndefined = True"
| "printable JNull = True"
| "printable (JBool b) = True"
| "printable (JNum n) = True"
| "printable (JStr txt) = True"
| "all_printable [] = True"
| "all_printable (x # xs) = (printable x \<and> all_printable xs)"

text \<open>What the \<^verbatim>\<open>try\<close> block of the message handler makes of a frame.\<close>

fun parsed :: "externals \<Rightarrow> ws_data \<Rightarrow> json option" where
  "parsed E (DString txt) = JSON_parse E txt"
| "parsed E (DBuffer txt) = JSON_parse E txt"
| "parsed E DOther = None"

text \<open>A frame that the \<^verbatim>\<open>try\<close> block does not turn into a parsed value.\<close>

fun unparsable :: "externals \<Rightarrow> ws_data \<Rightarrow> bool" where
  "unparsable E (DString txt) = (JSON_parse E txt = None)"
| "unparsable E (DBuffer txt) = (JSON_parse E txt = None)"
| "unparsable E DOther = True"

subsection \<open>On events\<close>

text \<open>
  The events whose handler calls \<^verbatim>\<open>stop()\<close>: the caller's own call, and the handler of
  \<^verbatim>\<open>unexpected-response\<close>.
\<close>

fun calls_stop :: "event \<Rightarrow> bool" where
  "calls_stop StopEv = True"
| "calls_stop (UnexpectedResponseEv c statusCode statusMessage) = True"
| "calls_stop ev = False"

fun is_close :: "event \<Rightarrow> bool" where
  "is_close (CloseEv c) = True"
| "is_close ev = False"

text \<open>
  The events that leave a probe unanswered and the connection up, \<open>h\<close> being the handle
  of the probe's deadline: anything but an answer to a probe, a close, a call of
  \<^verbatim>\<open>stop()\<close>, and the deadline itself.
\<close>

fun quiet :: "externals \<Rightarrow> nat \<Rightarrow> event \<Rightarrow> bool" where
  "quiet E h (MessageEv c data) = (case parsed E data of None \<Rightarrow> True | Some p \<Rightarrow> \<not> is_probe_ack p)"
| "quiet E h (CloseEv c) = False"
| "quiet E h StopEv = False"
| "quiet E h (UnexpectedResponseEv c statusCode statusMessage) = False"
| "quiet E h (TimerEv h') = (h' \<noteq> h)"
| "quiet E h (OpenEv c) = True"
| "quiet E h (ErrorEv c message) = True"

subsection \<open>The backoff of the specification\<close>

text \<open>
  The backoff in the words of the specification: the \<open>k\<close>-th close in a row is retried
  after 1 s doubled \<open>k\<close> times, at most 30 s, and a successful open starts the count again.
\<close>

fun spec_delays :: "nat \<Rightarrow> event list \<Rightarrow> nat list" where
  "spec_delays k [] = []"
| "spec_delays k (CloseEv c # evs) = min (1000 * 2 ^ k) 30000 # spec_delays (Suc k) evs"
| "spec_delays k (OpenEv c # evs) = spec_delays 0 evs"
| "spec_delays k (ev # evs) = spec_delays k evs"

subsection \<open>The shape of the states\<close>

text \<open>
  The shape of every state the listener reaches: the socket held in \<^verbatim>\<open>ws\<close> is not
  closed, at most one thing is under way, a socket that is not closed or a timer that will
  call \<^verbatim>\<open>connect\<close>, and the handles of the pending timers are older than the next
  handle.
\<close>

definition live_sockets :: "listener \<Rightarrow> nat" where
  "live_sockets s = length (filter (\<lambda>x. readyState x \<noteq> CLOSED) (conns s))"

definition one_connection :: "listener \<Rightarrow> bool" where
  "one_connection s =
     ((case ws s of None \<Rightarrow> True | Some c \<Rightarrow> ready s c \<noteq> CLOSED)
      \<and> live_sockets s + length (reconnect_timers s) \<le> 1
      \<and> list_all (\<lambda>(h, k, due). h < next_timer s) (timers s))"

text \<open>The listener holds the socket \<open>c\<close>, has not been stopped and has no reconnect pending.\<close>

definition connected_to :: "nat \<Rightarrow> listener \<Rightarrow> bool" where
  "connected_to c s =
     (ws s = Some c \<and> ready s c \<noteq> CLOSED \<and> \<not> stopped s \<and> reconnect_timers s = [])"

text \<open>
  The handles the listener keeps are handles it was given, and none of them is the handle
  of a timer that will call \<^verbatim>\<open>connect\<close>.
\<close>

definition handles_ok :: "listener \<Rightarrow> bool" where
  "handles_ok s =
     (list_all (\<lambda>(h, k, due). h < next_timer s
                  \<and> (k = Reconnect \<longrightarrow> pingTimeout s \<noteq> Some h \<and> keepAliveInterval s \<noteq> Some h))
        (timers s)
      \<and> (case pingTimeout s of None \<Rightarrow> True | Some h \<Rightarrow> h < next_timer s)
      \<and> (case keepAliveInterval s of None \<Rightarrow> True | Some h \<Rightarrow> h < next_timer s))"

text \<open>
  The two calls that \<^verbatim>\<open>onclose\<close> and \<^verbatim>\<open>stop\<close> make to clear the keep-alive timers,
  as one step.
\<close>

definition cleared :: "listener \<Rightarrow> listener" where
  "cleared s =
     (let s2 = (case keepAliveInterval s of None \<Rightarrow> s | Some h \<Rightarrow> clear_timer h s)
      in (case pingTimeout s2 of None \<Rightarrow> s2 | Some h \<Rightarrow> clear_timer h s2))"

section \<open>An example configuration\<close>

text \<open>
  A node that sends the frames below; every other text is not JSON.  The raw log of a
  notification carries its topics and its data.
\<close>

definition example_parse :: "string \<Rightarrow> json option" where
  \<open>example_parse txt =
     (if txt = ''{"id":1,"result":"0xSUBID"}''
        then Some (JObj [(''id'', JNum (Num 1)), (''result'', JStr ''0xSUBID'')])
      else if txt = ''{"id":1,"result":""}''
        then Some (JObj [(''id'', JNum (Num 1)), (''result'', JStr [])])
      else if txt = ''{"id":2,"result":true}''
        then Some (JObj [(''id'', JNum (Num 2)), (''result'', JBool True)])
      else if txt = ''{"method":"eth_subscription","params":{"subscription":"0xSUBID","result":{"topics":["0xddf252ad"],"data":"0x01"}}}''
        then Some (JObj [(''method'', JStr ''eth_subscription''),
                         (''params'', JObj [(''subscription'', JStr ''0xSUBID''),
                            (''result'', JObj [(''topics'', JArr [JStr ''0xddf252ad'']),
                                               (''data'', JStr ''0x01'')])])])
      else if txt = ''{"method":"eth_subscription","params":{"subscription":"","result":{"topics":["0xddf252ad"],"data":"0x01"}}}''
        then Some (JObj [(''method'', JStr ''eth_subscription''),
                         (''params'', JObj [(''subscription'', JStr []),
                            (''result'', JObj [(''topics'', JArr [JStr ''0xddf252ad'']),
                                               (''data'', JStr ''0x01'')])])])
      else if txt = ''{"method":"eth_subscription","params":{"subscription":"0xSUBID","result":{"topics":["0x8c5be1e5"],"data":"0x01"}}}''
        then Some (JObj [(''method'', JStr ''eth_subscription''),
                         (''params'', JObj [(''subscription'', JStr ''0xSUBID''),
                            (''result'', JObj [(''topics'', JArr [JStr ''0x8c5be1e5'']),
                                               (''data'', JStr ''0x01'')])])])
      else if txt = ''{"method":"eth_subscription","params":{"subscription":"0xSUBID","result":{"topics":["0xddf252ad"],"data":"0x"}}}''
        then Some (JObj [(''method'', JStr ''eth_subscription''),
                         (''params'', JObj [(''subscription'', JStr ''0xSUBID''),
                            (''result'', JObj [(''topics'', JArr [JStr ''0xddf252ad'']),
                                               (''data'', JStr ''0x'')])])])
      else if txt = ''{"method":"eth_subscription"}''
        then Some (JObj [(''method'', JStr ''eth_subscription'')])
      else None)\<close>

text \<open>
  A decoder that knows one event, \<^verbatim>\<open>Transfer\<close>, whose one unindexed argument is read
  from the data of the log.  The example writes the first four bytes of a topic hash for
  the hash.  A log whose first topic is the topic hash of that event is
  decoded, and the decoder throws when its data is empty (\<^verbatim>\<open>0x\<close>); a log with another
  first topic is not recognised (\<^verbatim>\<open>null\<close>); a value whose topics cannot be read makes
  the decoder throw.
\<close>

definition example_parseLog :: "json \<Rightarrow> exn + LogDescription option" where
  "example_parseLog logData =
     (case get_prop logData ''topics'' of
        Inl e \<Rightarrow> Inl e
      | Inr (JArr (JStr topic # topics)) \<Rightarrow>
          if topic = ''0xddf252ad''
          then (if opt_prop logData ''data'' = JStr ''0x''
                then Inl (RangeError ''data out-of-bounds'')
                else Inr (Some (LogDescription ''Transfer'' (opt_prop logData ''data''))))
          else Inr None
      | Inr other \<Rightarrow> Inl (TypeError ''Cannot read properties of undefined''))"

text \<open>
  How the runtime of the example prints a number.  The example node sends whole numbers
  below \<open>10\<^sup>2\<^sup>1\<close> only (the identifiers 1 and 2), and such a number prints as its sign
  and its decimal digits; the function is applied to no other finite number.
\<close>

definition example_toString :: "number \<Rightarrow> string" where
  "example_toString n =
     (case n of
        Num q \<Rightarrow> (if q < 0 then ''-'' else []) @ digits (nat \<lfloor>\<bar>q\<bar>\<rfloor>)
      | Infinity \<Rightarrow> ''Infinity''
      | NegInfinity \<Rightarrow> ''-Infinity'')"

definition example_externals :: externals where
  "example_externals =
     \<lparr>JSON_parse = example_parse, parseLog = example_parseLog,
      Number_toString = example_toString, topicHash = ''0xddf252ad''\<rparr>"

text \<open>The keep-alive interval is 1 s and the probe timeout 1.5 s.\<close>

definition example_args :: ResilientEventListenerArgs where
  "example_args =
     \<lparr>rpcUrl = ''wss://node.example/ws'',
      contractAddress = ''0xdAC17F958D2ee523a2206206994597C13D831ec7'',
      eventName = ''Transfer'', log_sink = True, callback = Some (\<lambda>eventLog. True),
      keepAliveCheckInterval = Some 1000, expectedPongBack = Some 1500\<rparr>"

text \<open>The state of the example listener after a sequence of events.\<close>

definition state_after :: "(nat \<times> event) list \<Rightarrow> listener" where
  "state_after tes =
     (case run example_externals example_args
             (resilientEventListener example_externals example_args) tes of
        Inr s \<Rightarrow> s
      | Inl e \<Rightarrow> initial)"

text \<open>The example listener once its socket is open and the subscription is acknowledged.\<close>

definition subscribed_state :: listener where
  \<open>subscribed_state =
     state_after [(0, OpenEv 0), (5, MessageEv 0 (DString ''{"id":1,"result":"0xSUBID"}''))]\<close>

text \<open>The example listener whose first socket opened and then closed half a second later.\<close>

definition closed_state :: listener where
  "closed_state = state_after [(0, OpenEv 0), (500, CloseEv 0)]"

section \<open>The helper \<^verbatim>\<open>log\<close> never reaches the sink\<close>

lemma digits_chars: "\<forall>ch \<in> set (digits n). of_char ch < (58::nat)"
proof (induction n rule: digits.induct)
  case (1 n)
  show ?case
  proof (cases "n < 10")
    case True
    then show ?thesis by (subst digits.simps) simp
  next
    case False
    have "n mod 10 < 10" by simp
    then have "(48 + n mod 10) mod 256 < 58" by simp
    with False 1 show ?thesis by (subst digits.simps) auto
  qed
qed

lemma digits_not_log: "digits i \<noteq> ''log''"
proof
  assume "digits i = ''log''"
  then have "CHR ''l'' \<in> set (digits i)" by simp
  with digits_chars [of i] have "of_char (CHR ''l'') < (58::nat)" by blast
  then show False by simp
qed

lemma array_prop_log: "array_prop args ''log'' = VUndefined"
  by (simp add: array_prop_def array_methods_def digits_not_log)

lemma log_eq: "log level message args s = emit (LogCall level message args) s"
  by (simp add: log_def array_prop_log)

lemmas prims = emit_def set_timer_def clear_timer_def set_ready_def set_subscriptionId_def
  ws_send_def ws_close_def ws_terminate_def remove_timer_def rearm_timer_def log_eq

lemmas evals = step_def fire_timer_def lift_def Let_def onerror_def onunexpected_def prims
  connect_def onopen_def keepAliveTick_def pingTimeoutFired_def dispatch_def onmessage_def
  onclose_def stop_def resilientEventListener_def initial_def example_externals_def
  example_args_def example_parse_def example_parseLog_def ready_def get_subscriptionId_def or_default_def
  timer_delay_def request_def ping_def opt_prop_def DEFAULT_KEEP_ALIVE_CHECK_INTERVAL_def
  DEFAULT_EXPECTED_PONG_BACK_def quoted_def

lemmas evals' = state_after_def subscribed_state_def closed_state_def evals

lemma connect_sinks:
  "filter is_sink_call (trace (connect E a s)) = filter is_sink_call (trace s)"
  by (simp add: connect_def prims Let_def)

lemma onopen_sinks:
  "onopen E a s = Inr s' \<Longrightarrow> filter is_sink_call (trace s') = filter is_sink_call (trace s)"
  by (auto simp: onopen_def prims Let_def split: option.splits if_splits)

lemma keepAliveTick_sinks:
  "keepAliveTick a s = Inr s' \<Longrightarrow> filter is_sink_call (trace s') = filter is_sink_call (trace s)"
  by (auto simp: keepAliveTick_def prims Let_def split: option.splits if_splits)

lemma pingTimeoutFired_sinks:
  "filter is_sink_call (trace (pingTimeoutFired s)) = filter is_sink_call (trace s)"
  by (simp add: pingTimeoutFired_def prims Let_def split: option.splits)

lemma dispatch_sinks:
  "dispatch E a c p s = Inr s' \<Longrightarrow> filter is_sink_call (trace s') = filter is_sink_call (trace s)"
  by (auto simp: dispatch_def prims Let_def split: option.splits if_splits sum.splits)

lemma onmessage_sinks:
  "onmessage E a c d s = Inr s' \<Longrightarrow> filter is_sink_call (trace s') = filter is_sink_call (trace s)"
  by (auto simp: onmessage_def prims dest!: dispatch_sinks split: ws_data.splits option.splits)

lemma onclose_sinks:
  "filter is_sink_call (trace (onclose s)) = filter is_sink_call (trace s)"
  by (simp add: onclose_def prims Let_def split: option.splits)

lemma stop_sinks:
  "filter is_sink_call (trace (stop s)) = filter is_sink_call (trace s)"
  by (simp add: stop_def prims Let_def split: option.splits)

lemma step_sinks:
  assumes "step E a s te = Inr s'"
  shows "filter is_sink_call (trace s') = filter is_sink_call (trace s)"
proof (cases te)
  case (Pair t ev)
  with assms show ?thesis
    by (cases ev)
      (auto simp: step_def fire_timer_def lift_def Let_def onerror_def onunexpected_def prims
        connect_sinks pingTimeoutFired_sinks onclose_sinks stop_sinks
        dest!: onopen_sinks keepAliveTick_sinks onmessage_sinks
        split: if_splits option.splits sum.splits timer_kind.splits)
qed

lemma run_sinks:
  "run E a s tes = Inr s' \<Longrightarrow> filter is_sink_call (trace s') = filter is_sink_call (trace s)"
proof (induction tes arbitrary: s)
  case Nil
  then show ?case by simp
next
  case (Cons te tes)
  then obtain s1 where 1: "step E a s te = Inr s1" and 2: "run E a s1 tes = Inr s'"
    by (auto split: sum.splits)
  from Cons.IH [OF 2] step_sinks [OF 1] show ?case by simp
qed

text \<open>
  C10.  The log sink supplied by the caller is never invoked.  Inside the helper the rest
  parameter \<open>args\<close> hides the configuration, so the test \<^verbatim>\<open>args.log\<close> reads a property
  that no array has: a call of the helper adds no call of the sink, whatever the level,
  the message, the further arguments and the state, and no sequence of events makes the
  listener call the sink, whether or not one was configured.
\<close>

theorem log_sink_never_invoked:
  "filter is_sink_call (trace (log level message args s)) = filter is_sink_call (trace s)
   \<and> (run E a (resilientEventListener E a) tes = Inr s' \<longrightarrow> filter is_sink_call (trace s') = [])"
proof (intro conjI impI)
  show "filter is_sink_call (trace (log level message args s)) = filter is_sink_call (trace s)"
    by (simp add: log_eq emit_def)
next
  assume "run E a (resilientEventListener E a) tes = Inr s'"
  from run_sinks [OF this] show "filter is_sink_call (trace s') = []"
    by (simp add: resilientEventListener_def connect_sinks initial_def)
qed

theorem log_sink_never_invoked_witness:
  \<open>\<exists>s'. run example_externals example_args (resilientEventListener example_externals example_args)
          [(0, OpenEv 0), (5, MessageEv 0 (DString ''{"id":1,"result":"0xSUBID"}'')),
           (7, MessageEv 0 (DString ''not json'')), (1000, TimerEv 0),
           (1100, MessageEv 0 (DString ''{"id":2,"result":true}'')),
           (1200, ErrorEv 0 ''reset''), (1300, CloseEv 0), (2300, TimerEv 2)] = Inr s'
        \<and> log_sink example_args \<and> length (trace s') = 20 \<and> filter is_sink_call (trace s') = []\<close>
proof -
  let ?tes = \<open>[(0, OpenEv 0), (5, MessageEv 0 (DString ''{"id":1,"result":"0xSUBID"}'')),
           (7, MessageEv 0 (DString ''not json'')), (1000, TimerEv 0),
           (1100, MessageEv 0 (DString ''{"id":2,"result":true}'')),
           (1200, ErrorEv 0 ''reset''), (1300, CloseEv 0), (2300, TimerEv 2)]\<close>
  obtain s' where r: "run example_externals example_args
      (resilientEventListener example_externals example_args) ?tes = Inr s'"
    and n: "length (trace s') = 20"
    by (simp add: evals)
  from log_sink_never_invoked [of Info "''x''" "[]" s' example_externals example_args ?tes s'] r
  have "filter is_sink_call (trace s') = []" by blast
  with r n show ?thesis by (simp add: example_args_def)
qed

section \<open>The message handler\<close>

lemma notification_params:
  "is_notification p \<Longrightarrow> get_prop p ''params'' = Inr (opt_prop p ''params'')"
  by (cases p) (simp_all add: is_notification_def opt_prop_def)

lemma handshake_result:
  "is_handshake_ack E a p \<Longrightarrow> get_prop p ''result'' = Inr (opt_prop p ''result'')"
  by (cases p) (simp_all add: is_handshake_ack_def opt_prop_def request_def)

lemmas tests = is_handshake_ack_def is_probe_ack_def is_notification_def


text \<open>
  C5 (the code does not do this).  A parsed message that passes none of the three tests
  should be dropped without an error, also when its \<^verbatim>\<open>params\<close> is absent.  The third
  test reads \<^verbatim>\<open>parsedData.params.subscription\<close> without a guard and outside the
  \<^verbatim>\<open>try\<close> block: on the notification \<^verbatim>\<open>{"method":"eth_subscription"}\<close> the handler
  throws a \<^verbatim>\<open>TypeError\<close>, in every state and with every configuration, and the
  exception leaves the handler uncaught.
\<close>

theorem notification_without_params_throws:
  \<open>dispatch E a c (JObj [(''method'', JStr ''eth_subscription'')]) s
     = Inl (TypeError (''Cannot read properties of undefined (reading ''
                        @ quoted ''subscription'' @ '')''))
   \<and> run example_externals example_args (resilientEventListener example_externals example_args)
         [(0, OpenEv 0), (5, MessageEv 0 (DString ''{"method":"eth_subscription"}''))]
     = Inl (Uncaught (TypeError (''Cannot read properties of undefined (reading ''
                        @ quoted ''subscription'' @ '')'')))\<close>
proof
  show "dispatch E a c (JObj [(''method'', JStr ''eth_subscription'')]) s
     = Inl (TypeError (''Cannot read properties of undefined (reading ''
                        @ quoted ''subscription'' @ '')''))"
    by (simp add: dispatch_def opt_prop_def request_def ping_def)
next
  show \<open>run example_externals example_args (resilientEventListener example_externals example_args)
         [(0, OpenEv 0), (5, MessageEv 0 (DString ''{"method":"eth_subscription"}''))]
     = Inl (Uncaught (TypeError (''Cannot read properties of undefined (reading ''
                        @ quoted ''subscription'' @ '')'')))\<close>
    by (simp add: evals)
qed

text \<open>
  C6 as the spec states it fails: a frame of an unexpected data type is a frame that does
  not parse, and the handler reports it at severity \<open>Warn\<close>, not \<open>Error\<close>.  On such a
  frame the whole effect of the handler of the example listener is one call of the log
  helper at \<open>Warn\<close>.
\<close>

theorem unexpected_data_type_is_logged_at_warn:
  "unparsable example_externals DOther
   \<and> (case onmessage example_externals example_args 0 DOther subscribed_state of
        Inl e \<Rightarrow> []
      | Inr s' \<Rightarrow> drop (length (trace subscribed_state)) (trace s'))
     = [LogCall Warn ''Received unexpected data type from WebSocket.'' [VData DOther]]"
  by (simp add: onmessage_def log_eq emit_def)

text \<open>
  C6, amended.  A frame that does not parse never leaves the handler as an error and
  never touches the connection: the handler returns, and the state it returns is the
  state before with one call of the log helper, at severity \<open>Error\<close> when
  \<^verbatim>\<open>JSON.parse\<close> threw and at severity \<open>Warn\<close> when the data is neither a string nor a
  buffer.
\<close>

theorem unparsable_frame_is_logged_and_dropped:
  "unparsable E data \<Longrightarrow>
   onmessage E a c data s =
     Inr (case data of
            DString txt \<Rightarrow>
              log Error ''Failed to parse JSON from WebSocket message.'' [VError (SyntaxError txt)] s
          | DBuffer txt \<Rightarrow>
              log Error ''Failed to parse JSON from WebSocket message.'' [VError (SyntaxError txt)] s
          | DOther \<Rightarrow>
              log Warn ''Received unexpected data type from WebSocket.'' [VData DOther] s)"
  by (cases data) (simp_all add: onmessage_def)

theorem unparsable_frame_is_logged_and_dropped_witness:
  "unparsable example_externals (DString ''{id:1'')
   \<and> onmessage example_externals example_args 0 (DString ''{id:1'') subscribed_state =
       Inr (log Error ''Failed to parse JSON from WebSocket message.''
              [VError (SyntaxError ''{id:1'')] subscribed_state)"
proof -
  have u: "unparsable example_externals (DString ''{id:1'')"
    by (simp add: example_externals_def example_parse_def)
  from unparsable_frame_is_logged_and_dropped [OF u, of example_args 0 subscribed_state] u
  show ?thesis by simp
qed



lemma to_string_error:
  "to_string shown v = Inl e \<Longrightarrow> e = TypeError ''Cannot convert object to primitive value''"
  "join_elems shown xs = Inl e \<Longrightarrow> e = TypeError ''Cannot convert object to primitive value''"
  by (induct shown v and shown xs rule: to_string_join_elems.induct)
     (auto split: sum.splits if_splits)

lemma to_string_printable:
  "to_string shown v = Inr shown_v \<Longrightarrow> printable v"
  "join_elems shown xs = Inr shown_xs \<Longrightarrow> all_printable xs"
  by (induct shown v and shown xs arbitrary: shown_v and shown_xs
        rule: to_string_join_elems.induct)
     (auto split: sum.splits if_splits)

lemma unprintable_to_string:
  assumes "\<not> printable v"
  shows "to_string shown v = Inl (TypeError ''Cannot convert object to primitive value'')"
proof (cases "to_string shown v")
  case (Inl e)
  with to_string_error(1) [OF Inl] show ?thesis by simp
next
  case (Inr shown_v)
  with to_string_printable(1) [OF Inr] assms show ?thesis by simp
qed

text \<open>
  A subscribe response whose result is not printable is stored nowhere the caller can see:
  the template literal of the log line throws, and the exception leaves the handler.
\<close>

lemma unprintable_subscribe_result_throws:
  assumes "is_handshake_ack E a p" and "\<not> printable (opt_prop p ''result'')"
  shows "dispatch E a c p s = Inl (TypeError ''Cannot convert object to primitive value'')"
  using assms handshake_result [OF assms(1)] unprintable_to_string [OF assms(2)]
  by (simp add: dispatch_def is_handshake_ack_def)



text \<open>
  C8 (the code does not do this).  A notification whose subscription is the identifier
  the connection knows, and whose payload cannot be decoded, should be recovered in the
  handler, the callback receiving \<^verbatim>\<open>null\<close>.  The call of \<^verbatim>\<open>parseLog\<close> is after the
  \<^verbatim>\<open>try\<close> block of the handler, so an exception of the decoder leaves the handler.  The
  example listener is subscribed under \<^verbatim>\<open>0xSUBID\<close>; the notification of that
  subscription that carries a \<^verbatim>\<open>Transfer\<close> log with empty data makes the decoder throw
  a \<^verbatim>\<open>RangeError\<close>.  The handler throws it, no state is returned and no callback is
  invoked, and the run of the listener ends with the uncaught exception.
\<close>

theorem decoder_exception_leaves_handler:
  \<open>get_subscriptionId subscribed_state 0 = JStr ''0xSUBID''
   \<and> onmessage example_externals example_args 0
        (DString ''{"method":"eth_subscription","params":{"subscription":"0xSUBID","result":{"topics":["0xddf252ad"],"data":"0x"}}}'')
        subscribed_state
      = Inl (RangeError ''data out-of-bounds'')
   \<and> run example_externals example_args (resilientEventListener example_externals example_args)
        [(0, OpenEv 0),
         (5, MessageEv 0 (DString ''{"id":1,"result":"0xSUBID"}'')),
         (6, MessageEv 0 (DString
               ''{"method":"eth_subscription","params":{"subscription":"0xSUBID","result":{"topics":["0xddf252ad"],"data":"0x"}}}''))]
      = Inl (Uncaught (RangeError ''data out-of-bounds''))\<close>
proof (intro conjI)
  show "get_subscriptionId subscribed_state 0 = JStr ''0xSUBID''"
    by (simp add: evals')
next
  show \<open>onmessage example_externals example_args 0
        (DString ''{"method":"eth_subscription","params":{"subscription":"0xSUBID","result":{"topics":["0xddf252ad"],"data":"0x"}}}'')
        subscribed_state
      = Inl (RangeError ''data out-of-bounds'')\<close>
    by (simp add: evals')
next
  show \<open>run example_externals example_args (resilientEventListener example_externals example_args)
        [(0, OpenEv 0),
         (5, MessageEv 0 (DString ''{"id":1,"result":"0xSUBID"}'')),
         (6, MessageEv 0 (DString
               ''{"method":"eth_subscription","params":{"subscription":"0xSUBID","result":{"topics":["0xddf252ad"],"data":"0x"}}}''))]
      = Inl (Uncaught (RangeError ''data out-of-bounds''))\<close>
    by (simp add: evals)
qed

text \<open>
  This holds for every decoder, configuration and state: on a notification of the
  subscription the connection knows, what \<^verbatim>\<open>parseLog\<close> throws is what the handler
  throws.
\<close>

lemma decoder_exception_propagates:
  assumes "data = DString txt \<or> data = DBuffer txt"
    and "JSON_parse E txt = Some p"
    and "\<not> is_handshake_ack E a p" and "\<not> is_probe_ack p" and "is_notification p"
    and "get_prop (opt_prop p ''params'') ''subscription'' = Inr sub"
    and "strict_eq sub (get_subscriptionId s c)"
    and "parseLog E (opt_prop (opt_prop p ''params'') ''result'') = Inl e"
  shows "onmessage E a c data s = Inl e"
proof -
  have r: "get_prop (opt_prop p ''params'') ''result''
             = Inr (opt_prop (opt_prop p ''params'') ''result'')"
    using assms(6) by (cases "opt_prop p ''params''") (simp_all add: opt_prop_def)
  have "dispatch E a c p s = Inl e"
    using assms(3-8) notification_params [OF assms(5)] r
    by (auto simp: dispatch_def tests)
  with assms(1,2) show ?thesis by (auto simp: onmessage_def)
qed

text \<open>
  The handler does tolerate a decoder that returns \<^verbatim>\<open>null\<close>, as \<^verbatim>\<open>parseLog\<close> does for a
  log whose first topic it does not know: the handler returns, and all it did is one call
  of the log helper followed by one call of the callback, with \<^verbatim>\<open>null\<close>.
\<close>

lemma unrecognised_event_reaches_callback_as_null:
  assumes "data = DString txt \<or> data = DBuffer txt"
    and "JSON_parse E txt = Some p"
    and "\<not> is_handshake_ack E a p" and "\<not> is_probe_ack p" and "is_notification p"
    and "get_prop (opt_prop p ''params'') ''subscription'' = Inr sub"
    and "strict_eq sub (get_subscriptionId s c)"
    and "parseLog E (opt_prop (opt_prop p ''params'') ''result'') = Inr None"
    and "callback a = Some f" and "f None"
  shows "onmessage E a c data s =
           Inr (s\<lparr>trace := trace s @ [LogCall Info ''Received event undefined:'' [VUndefined],
                                      Callback None]\<rparr>)"
proof -
  have r: "get_prop (opt_prop p ''params'') ''result''
             = Inr (opt_prop (opt_prop p ''params'') ''result'')"
    using assms(6) by (cases "opt_prop p ''params''") (simp_all add: opt_prop_def)
  have "dispatch E a c p s =
           Inr (s\<lparr>trace := trace s @ [LogCall Info ''Received event undefined:'' [VUndefined],
                                      Callback None]\<rparr>)"
    using assms(3-10) notification_params [OF assms(5)] r
    by (auto simp: dispatch_def tests log_eq emit_def)
  with assms(1,2) show ?thesis by (auto simp: onmessage_def)
qed

section \<open>Reconnecting and stopping\<close>

lemma rd_append [simp]: "reconnect_delays (xs @ ys) = reconnect_delays xs @ reconnect_delays ys"
  by (simp add: reconnect_delays_def)

lemma rd_simps [simp]:
  "reconnect_delays [] = []"
  "reconnect_delays (x # xs) = reconnect_delay_of x @ reconnect_delays xs"
  by (simp_all add: reconnect_delays_def)

lemma connect_sup:
  "stopped (connect E a s) = stopped s \<and> reconnectDelay (connect E a s) = reconnectDelay s
   \<and> reconnect_delays (trace (connect E a s)) = reconnect_delays (trace s)"
  by (simp add: connect_def prims Let_def)

lemma onopen_sup:
  "onopen E a s = Inr s' \<Longrightarrow>
   stopped s' = stopped s \<and> reconnectDelay s' = 1000
   \<and> reconnect_delays (trace s') = reconnect_delays (trace s)"
  by (auto simp: onopen_def prims Let_def split: option.splits if_splits)

lemma keepAliveTick_sup:
  "keepAliveTick a s = Inr s' \<Longrightarrow>
   stopped s' = stopped s \<and> reconnectDelay s' = reconnectDelay s
   \<and> reconnect_delays (trace s') = reconnect_delays (trace s)"
  by (auto simp: keepAliveTick_def prims Let_def split: option.splits if_splits)

lemma pingTimeoutFired_sup:
  "stopped (pingTimeoutFired s) = stopped s \<and> reconnectDelay (pingTimeoutFired s) = reconnectDelay s
   \<and> reconnect_delays (trace (pingTimeoutFired s)) = reconnect_delays (trace s)"
  by (simp add: pingTimeoutFired_def prims Let_def split: option.splits)

lemma dispatch_sup:
  "dispatch E a c p s = Inr s' \<Longrightarrow>
   stopped s' = stopped s \<and> reconnectDelay s' = reconnectDelay s
   \<and> reconnect_delays (trace s') = reconnect_delays (trace s)"
  by (auto simp: dispatch_def prims Let_def split: option.splits if_splits sum.splits)

lemma onmessage_sup:
  "onmessage E a c d s = Inr s' \<Longrightarrow>
   stopped s' = stopped s \<and> reconnectDelay s' = reconnectDelay s
   \<and> reconnect_delays (trace s') = reconnect_delays (trace s)"
  by (auto simp: onmessage_def prims dest!: dispatch_sup split: ws_data.splits option.splits)

lemma onclose_sup:
  "\<not> stopped s \<Longrightarrow>
   \<not> stopped (onclose s) \<and> reconnectDelay (onclose s) = min (reconnectDelay s * 2) 30000
   \<and> reconnect_delays (trace (onclose s)) = reconnect_delays (trace s) @ [reconnectDelay s]"
  by (simp add: onclose_def prims Let_def split: option.splits)

lemma step_sup:
  assumes "step E a s (t, ev) = Inr s'" and "\<not> stopped s" and "\<not> calls_stop ev"
  shows "\<not> stopped s'
    \<and> reconnectDelay s' = (if is_close ev then min (reconnectDelay s * 2) 30000
                           else case ev of OpenEv c \<Rightarrow> 1000 | _ \<Rightarrow> reconnectDelay s)
    \<and> reconnect_delays (trace s') =
        reconnect_delays (trace s) @ (if is_close ev then [reconnectDelay s] else [])"
  using assms
  by (cases ev)
    (auto simp: step_def fire_timer_def lift_def Let_def onerror_def prims
      connect_sup pingTimeoutFired_sup onclose_sup
      dest!: onopen_sup keepAliveTick_sup onmessage_sup
      split: if_splits option.splits sum.splits timer_kind.splits)


lemma backoff_doubles:
  "min (min (1000 * 2 ^ k) 30000 * 2) 30000 = min (1000 * 2 ^ Suc k) (30000::nat)"
  by (simp add: min_def)

lemma run_backoff:
  assumes "run E a s tes = Inr s'" and "\<not> stopped s"
    and "reconnectDelay s = min (1000 * 2 ^ k) 30000"
    and "\<forall>te \<in> set tes. \<not> calls_stop (snd te)"
  shows "reconnect_delays (trace s') = reconnect_delays (trace s) @ spec_delays k (map snd tes)"
  using assms
proof (induction tes arbitrary: s k)
  case Nil
  then show ?case by simp
next
  case (Cons te tes)
  obtain t ev where te: "te = (t, ev)" by (cases te)
  from Cons.prems(1) obtain s1 where 1: "step E a s (t, ev) = Inr s1"
    and 2: "run E a s1 tes = Inr s'"
    by (auto simp: te split: sum.splits)
  from Cons.prems(4) have ns: "\<not> calls_stop ev" and rest: "\<forall>te \<in> set tes. \<not> calls_stop (snd te)"
    by (simp_all add: te)
  note eff = step_sup [OF 1 Cons.prems(2) ns]
  show ?case
  proof (cases ev)
    case (CloseEv c)
    with eff Cons.prems(3) have d: "reconnectDelay s1 = min (1000 * 2 ^ Suc k) 30000"
      by (simp add: backoff_doubles)
    from Cons.IH [OF 2 _ d rest] eff CloseEv Cons.prems(3) show ?thesis
      by (simp add: te)
  next
    case (OpenEv c)
    with eff have d: "reconnectDelay s1 = min (1000 * 2 ^ 0) 30000" by simp
    from Cons.IH [OF 2 _ d rest] eff OpenEv show ?thesis
      by (simp add: te)
  next
    case (MessageEv c data)
    with eff Cons.prems(3) have d: "reconnectDelay s1 = min (1000 * 2 ^ k) 30000" by simp
    from Cons.IH [OF 2 _ d rest] eff MessageEv show ?thesis by (simp add: te)
  next
    case (ErrorEv c m)
    with eff Cons.prems(3) have d: "reconnectDelay s1 = min (1000 * 2 ^ k) 30000" by simp
    from Cons.IH [OF 2 _ d rest] eff ErrorEv show ?thesis by (simp add: te)
  next
    case (TimerEv h)
    with eff Cons.prems(3) have d: "reconnectDelay s1 = min (1000 * 2 ^ k) 30000" by simp
    from Cons.IH [OF 2 _ d rest] eff TimerEv show ?thesis by (simp add: te)
  next
    case (UnexpectedResponseEv c sc sm)
    with ns show ?thesis by simp
  next
    case StopEv
    with ns show ?thesis by simp
  qed
qed

lemma spec_delays_length: "length (spec_delays k evs) = length (filter is_close evs)"
  by (induction k evs rule: spec_delays.induct) simp_all

lemma spec_delays_closes:
  "spec_delays k (map CloseEv cs) = map (\<lambda>i. min (1000 * 2 ^ i) 30000) [k ..< k + length cs]"
proof (induction cs arbitrary: k)
  case Nil
  then show ?case by simp
next
  case (Cons c cs)
  have "[k ..< Suc (k + length cs)] = k # [Suc k ..< Suc (k + length cs)]"
    by (rule upt_conv_Cons) simp
  with Cons.IH [of "Suc k"] show ?case by simp
qed

text \<open>
  C1.  In a run of the listener in which \<^verbatim>\<open>stop()\<close> is never called, every close of a
  socket schedules exactly one reconnect, and the delays of the reconnects are the ones
  the specification names: 1 s, 2 s, 4 s and so on, at most 30 s, counted from 1 s again
  after every successful open.
\<close>

theorem reconnect_delays_follow_backoff:
  assumes "run E a (resilientEventListener E a) tes = Inr s'"
    and "\<forall>te \<in> set tes. \<not> calls_stop (snd te)"
  shows "reconnect_delays (trace s') = spec_delays 0 (map snd tes)
         \<and> length (reconnect_delays (trace s')) = length (filter is_close (map snd tes))"
proof -
  let ?s = "resilientEventListener E a"
  have "\<not> stopped ?s" and "reconnectDelay ?s = min (1000 * 2 ^ 0) 30000"
    and "reconnect_delays (trace ?s) = []"
    by (simp_all add: resilientEventListener_def connect_sup initial_def)
  with run_backoff [OF assms(1) _ _ assms(2), of 0]
  have "reconnect_delays (trace s') = spec_delays 0 (map snd tes)" by simp
  then show ?thesis by (simp add: spec_delays_length)
qed

theorem reconnect_delays_follow_backoff_witness:
  "\<exists>s'. run example_externals example_args (resilientEventListener example_externals example_args)
          [(10, CloseEv 0), (1010, TimerEv 0), (1020, CloseEv 1), (3020, TimerEv 1),
           (3030, OpenEv 2), (3040, CloseEv 2)] = Inr s'
        \<and> reconnect_delays (trace s') = [1000, 2000, 1000]"
proof -
  let ?tes = "[(10, CloseEv 0), (1010, TimerEv 0), (1020, CloseEv 1), (3020, TimerEv 1),
           (3030, OpenEv 2), (3040, CloseEv 2)]"
  obtain s' where r: "run example_externals example_args
      (resilientEventListener example_externals example_args) ?tes = Inr s'"
    by (simp add: evals)
  have q: "\<forall>te \<in> set ?tes. \<not> calls_stop (snd te)" by simp
  from reconnect_delays_follow_backoff [OF r q] r show ?thesis by simp
qed

lemma att_append [simp]:
  "connection_attempts (xs @ ys) = connection_attempts xs @ connection_attempts ys"
  by (simp add: connection_attempts_def)

lemma att_simps [simp]:
  "connection_attempts [] = []"
  "connection_attempts (x # xs) = (if is_new_socket x then x # connection_attempts xs else connection_attempts xs)"
  by (simp_all add: connection_attempts_def)

lemma connect_att:
  "stopped s \<Longrightarrow> stopped (connect E a s) \<and> conns (connect E a s) = conns s
     \<and> connection_attempts (trace (connect E a s)) = connection_attempts (trace s)"
  by (simp add: connect_def prims connection_attempts_def)

lemma onopen_att:
  "onopen E a s = Inr s' \<Longrightarrow>
   stopped s' = stopped s \<and> conns s' = conns s
   \<and> connection_attempts (trace s') = connection_attempts (trace s)"
  by (auto simp: onopen_def prims Let_def connection_attempts_def split: option.splits if_splits)

lemma keepAliveTick_att:
  "keepAliveTick a s = Inr s' \<Longrightarrow>
   stopped s' = stopped s \<and> conns s' = conns s
   \<and> connection_attempts (trace s') = connection_attempts (trace s)"
  by (auto simp: keepAliveTick_def prims Let_def connection_attempts_def
      split: option.splits if_splits)

lemma pingTimeoutFired_att:
  "stopped (pingTimeoutFired s) = stopped s
   \<and> length (conns (pingTimeoutFired s)) = length (conns s)
   \<and> connection_attempts (trace (pingTimeoutFired s)) = connection_attempts (trace s)"
  by (simp add: pingTimeoutFired_def prims Let_def connection_attempts_def split: option.splits)

lemma dispatch_att:
  "dispatch E a c p s = Inr s' \<Longrightarrow>
   stopped s' = stopped s \<and> length (conns s') = length (conns s)
   \<and> connection_attempts (trace s') = connection_attempts (trace s)"
  by (auto simp: dispatch_def prims Let_def connection_attempts_def
      split: option.splits if_splits sum.splits)

lemma onmessage_att:
  "onmessage E a c d s = Inr s' \<Longrightarrow>
   stopped s' = stopped s \<and> length (conns s') = length (conns s)
   \<and> connection_attempts (trace s') = connection_attempts (trace s)"
  by (auto simp: onmessage_def prims connection_attempts_def dest!: dispatch_att
      split: ws_data.splits option.splits)

lemma onclose_att:
  "stopped (onclose s) = stopped s \<and> conns (onclose s) = conns s
   \<and> connection_attempts (trace (onclose s)) = connection_attempts (trace s)"
  by (simp add: onclose_def prims Let_def connection_attempts_def split: option.splits)

lemma stop_att:
  "stopped (stop s) \<and> length (conns (stop s)) = length (conns s)
   \<and> connection_attempts (trace (stop s)) = connection_attempts (trace s)"
  by (simp add: stop_def prims Let_def connection_attempts_def split: option.splits)

lemma step_att:
  assumes "step E a s te = Inr s'" and "stopped s \<or> calls_stop (snd te)"
  shows "stopped s' \<and> length (conns s') = length (conns s)
    \<and> connection_attempts (trace s') = connection_attempts (trace s)"
proof (cases te)
  case (Pair t ev)
  with assms show ?thesis
    by (cases ev)
      (auto simp: step_def fire_timer_def lift_def Let_def onerror_def onunexpected_def
        connect_att pingTimeoutFired_att onclose_att stop_att
        emit_def log_eq set_ready_def remove_timer_def rearm_timer_def
        dest!: onopen_att keepAliveTick_att onmessage_att
        split: if_splits option.splits sum.splits timer_kind.splits)
qed

lemma run_att:
  "run E a s tes = Inr s' \<Longrightarrow> stopped s \<Longrightarrow>
   stopped s' \<and> length (conns s') = length (conns s)
    \<and> connection_attempts (trace s') = connection_attempts (trace s)"
proof (induction tes arbitrary: s)
  case Nil
  then show ?case by simp
next
  case (Cons te tes)
  then obtain s1 where 1: "step E a s te = Inr s1" and 2: "run E a s1 tes = Inr s'"
    by (auto split: sum.splits)
  from step_att [OF 1] Cons.prems(2) have 3: "stopped s1" and 4: "length (conns s1) = length (conns s)"
    and 5: "connection_attempts (trace s1) = connection_attempts (trace s)" by simp_all
  from Cons.IH [OF 2 3] 4 5 show ?case by simp
qed

text \<open>
  C2.  Once \<^verbatim>\<open>stop()\<close> has been called, by the caller or by the handler of
  \<^verbatim>\<open>unexpected-response\<close>, in any state and so with any timers pending, nothing that
  happens afterwards opens a socket: the sockets created are those created before the
  call, and the listener stays stopped.
\<close>

theorem no_connection_attempt_after_stop:
  assumes "calls_stop ev" and "run E a s ((t, ev) # tes) = Inr s'"
  shows "connection_attempts (trace s') = connection_attempts (trace s)
         \<and> length (conns s') = length (conns s) \<and> stopped s'"
proof -
  from assms(2) obtain s1 where 1: "step E a s (t, ev) = Inr s1" and 2: "run E a s1 tes = Inr s'"
    by (auto split: sum.splits)
  from step_att [OF 1] assms(1) have "stopped s1" and "length (conns s1) = length (conns s)"
    and "connection_attempts (trace s1) = connection_attempts (trace s)" by simp_all
  with run_att [OF 2] show ?thesis by simp
qed

theorem no_connection_attempt_after_stop_witness:
  "\<exists>s'. run example_externals example_args closed_state [(600, StopEv), (1500, TimerEv 1)] = Inr s'
        \<and> timers closed_state = [(1, Reconnect, 1500)]
        \<and> connection_attempts (trace s') = [NewWebSocket 0 ''wss://node.example/ws'']"
proof -
  obtain s' where r: "run example_externals example_args closed_state
      [(600, StopEv), (1500, TimerEv 1)] = Inr s'"
    by (simp add: evals')
  have t: "timers closed_state = [(1, Reconnect, 1500)]"
    and a: "connection_attempts (trace closed_state) = [NewWebSocket 0 ''wss://node.example/ws'']"
    by (simp_all add: evals')
  have c: "calls_stop StopEv" by simp
  from no_connection_attempt_after_stop [OF c r] r t a show ?thesis by simp
qed

lemma map_of_filter_keeps:
  "\<forall>v. P (h, v) \<Longrightarrow> map_of (filter P xs) h = map_of xs h"
  by (induction xs) auto

lemma map_of_removed:
  "map_of (filter (\<lambda>(i, k, due). i \<noteq> h) xs) h = None"
  by (induction xs) auto

section \<open>At most one connection\<close>

lemma filter_length_update:
  "c < length xs \<Longrightarrow>
   length (filter P (xs[c := y])) + (if P (xs ! c) then 1 else 0)
     = length (filter P xs) + (if P y then 1 else 0)"
proof (induction xs arbitrary: c)
  case Nil
  then show ?case by simp
next
  case (Cons x xs)
  show ?case
  proof (cases c)
    case 0
    then show ?thesis by simp
  next
    case (Suc n)
    with Cons.prems have "n < length xs" by simp
    from Cons.IH [OF this] Suc show ?thesis by simp
  qed
qed

lemma live_set_ready_open:
  assumes "ready s c \<noteq> CLOSED" and "r \<noteq> CLOSED"
  shows "live_sockets (set_ready c r s) = live_sockets s"
proof -
  from assms(1) have c: "c < length (conns s)" and p: "readyState (conns s ! c) \<noteq> CLOSED"
    by (auto simp: ready_def split: if_splits)
  from filter_length_update [OF c, of "\<lambda>x. readyState x \<noteq> CLOSED" "(conns s ! c)\<lparr>readyState := r\<rparr>"] p assms(2) c
  show ?thesis by (simp add: live_sockets_def set_ready_def)
qed

lemma live_set_ready_closed:
  assumes "ready s c \<noteq> CLOSED"
  shows "Suc (live_sockets (set_ready c CLOSED s)) = live_sockets s"
proof -
  from assms(1) have c: "c < length (conns s)" and p: "readyState (conns s ! c) \<noteq> CLOSED"
    by (auto simp: ready_def split: if_splits)
  from filter_length_update [OF c, of "\<lambda>x. readyState x \<noteq> CLOSED" "(conns s ! c)\<lparr>readyState := CLOSED\<rparr>"] p c
  show ?thesis by (simp add: live_sockets_def set_ready_def)
qed

lemma live_set_subscriptionId:
  "live_sockets (set_subscriptionId c v s) = live_sockets s"
proof (cases "c < length (conns s)")
  case True
  from filter_length_update [OF True, of "\<lambda>x. readyState x \<noteq> CLOSED" "(conns s ! c)\<lparr>subscriptionId := v\<rparr>"] True
  show ?thesis by (auto simp: live_sockets_def set_subscriptionId_def split: if_splits)
next
  case False
  then show ?thesis by (simp add: set_subscriptionId_def)
qed

lemma ready_set_ready:
  "ready (set_ready c' r s) c = (if c = c' \<and> c' < length (conns s) then r else ready s c)"
  by (simp add: ready_def set_ready_def)

lemma ready_set_subscriptionId:
  "ready (set_subscriptionId c' v s) c = ready s c"
  by (auto simp: ready_def set_subscriptionId_def nth_list_update)

lemma ready_fields [simp]:
  "ready (s\<lparr>ws := a1\<rparr>) c = ready s c"
  "ready (s\<lparr>pingTimeout := a2\<rparr>) c = ready s c"
  "ready (s\<lparr>keepAliveInterval := a3\<rparr>) c = ready s c"
  "ready (s\<lparr>stopped := a4\<rparr>) c = ready s c"
  "ready (s\<lparr>reconnectDelay := a5\<rparr>) c = ready s c"
  "ready (s\<lparr>timers := a6\<rparr>) c = ready s c"
  "ready (s\<lparr>next_timer := a7\<rparr>) c = ready s c"
  "ready (s\<lparr>now := a8\<rparr>) c = ready s c"
  "ready (s\<lparr>trace := a9\<rparr>) c = ready s c"
  by (simp_all add: ready_def)

lemma live_fields [simp]:
  "live_sockets (s\<lparr>ws := a1\<rparr>) = live_sockets s"
  "live_sockets (s\<lparr>pingTimeout := a2\<rparr>) = live_sockets s"
  "live_sockets (s\<lparr>keepAliveInterval := a3\<rparr>) = live_sockets s"
  "live_sockets (s\<lparr>stopped := a4\<rparr>) = live_sockets s"
  "live_sockets (s\<lparr>reconnectDelay := a5\<rparr>) = live_sockets s"
  "live_sockets (s\<lparr>timers := a6\<rparr>) = live_sockets s"
  "live_sockets (s\<lparr>next_timer := a7\<rparr>) = live_sockets s"
  "live_sockets (s\<lparr>now := a8\<rparr>) = live_sockets s"
  "live_sockets (s\<lparr>trace := a9\<rparr>) = live_sockets s"
  by (simp_all add: live_sockets_def)

lemma reconnect_timers_fields [simp]:
  "reconnect_timers (s\<lparr>ws := a1\<rparr>) = reconnect_timers s"
  "reconnect_timers (s\<lparr>pingTimeout := a2\<rparr>) = reconnect_timers s"
  "reconnect_timers (s\<lparr>keepAliveInterval := a3\<rparr>) = reconnect_timers s"
  "reconnect_timers (s\<lparr>stopped := a4\<rparr>) = reconnect_timers s"
  "reconnect_timers (s\<lparr>reconnectDelay := a5\<rparr>) = reconnect_timers s"
  "reconnect_timers (s\<lparr>conns := a6\<rparr>) = reconnect_timers s"
  "reconnect_timers (s\<lparr>next_timer := a7\<rparr>) = reconnect_timers s"
  "reconnect_timers (s\<lparr>now := a8\<rparr>) = reconnect_timers s"
  "reconnect_timers (s\<lparr>trace := a9\<rparr>) = reconnect_timers s"
  "reconnect_timers (s\<lparr>timers := xs\<rparr>) = filter (\<lambda>(h, k, due). k = Reconnect) xs"
  by (simp_all add: reconnect_timers_def)

lemma set_ready_fields [simp]:
  "ws (set_ready c r s) = ws s"
  "pingTimeout (set_ready c r s) = pingTimeout s"
  "keepAliveInterval (set_ready c r s) = keepAliveInterval s"
  "stopped (set_ready c r s) = stopped s"
  "reconnectDelay (set_ready c r s) = reconnectDelay s"
  "timers (set_ready c r s) = timers s"
  "next_timer (set_ready c r s) = next_timer s"
  "now (set_ready c r s) = now s"
  "trace (set_ready c r s) = trace s"
  "length (conns (set_ready c r s)) = length (conns s)"
  "reconnect_timers (set_ready c r s) = reconnect_timers s"
  by (simp_all add: set_ready_def)

lemma set_subscriptionId_fields [simp]:
  "ws (set_subscriptionId c v s) = ws s"
  "pingTimeout (set_subscriptionId c v s) = pingTimeout s"
  "keepAliveInterval (set_subscriptionId c v s) = keepAliveInterval s"
  "stopped (set_subscriptionId c v s) = stopped s"
  "reconnectDelay (set_subscriptionId c v s) = reconnectDelay s"
  "timers (set_subscriptionId c v s) = timers s"
  "next_timer (set_subscriptionId c v s) = next_timer s"
  "now (set_subscriptionId c v s) = now s"
  "trace (set_subscriptionId c v s) = trace s"
  "length (conns (set_subscriptionId c v s)) = length (conns s)"
  "reconnect_timers (set_subscriptionId c v s) = reconnect_timers s"
  by (simp_all add: set_subscriptionId_def)

lemmas conn_simps = ready_set_ready ready_set_subscriptionId live_set_subscriptionId

text \<open>Primitives that leave the sockets alone, as record updates.\<close>

lemmas timer_prims = emit_def log_eq set_timer_def clear_timer_def remove_timer_def rearm_timer_def

lemma live_pos: "ready s c \<noteq> CLOSED \<Longrightarrow> 0 < live_sockets s"
proof -
  assume "ready s c \<noteq> CLOSED"
  then have c: "c < length (conns s)" and p: "readyState (conns s ! c) \<noteq> CLOSED"
    by (auto simp: ready_def split: if_splits)
  then have "conns s ! c \<in> set (filter (\<lambda>x. readyState x \<noteq> CLOSED) (conns s))" by simp
  then show ?thesis unfolding live_sockets_def by (metis length_pos_if_in_set)
qed

lemma filter_two_length:
  "length (filter P (filter Q xs)) \<le> length (filter P xs)"
  by (induction xs) auto

lemma rearm_kinds:
  "filter (\<lambda>(h, k, due). k = Reconnect)
     (map (\<lambda>(i, k, due). if i = h then (i, k, due + d) else (i, k, due)) xs)
   = map (\<lambda>(i, k, due). if i = h then (i, k, due + d) else (i, k, due))
       (filter (\<lambda>(h, k, due). k = Reconnect) xs)"
  by (induction xs) (auto split: if_splits)

lemma rearm_fresh:
  "list_all (\<lambda>(h, k, due). h < n)
     (map (\<lambda>(i, k, due). if i = h' then (i, k, due + d) else (i, k, due)) xs)
   = list_all (\<lambda>(h, k, due). h < n) xs"
  by (induction xs) (auto split: if_splits)

lemma fresh_filter:
  "list_all (\<lambda>(h, k, due). h < n) xs \<Longrightarrow> list_all (\<lambda>(h, k, due). h < n) (filter Q xs)"
  by (induction xs) auto

lemma fresh_Suc:
  "list_all (\<lambda>(h, k, due). h < n) xs \<Longrightarrow> list_all (\<lambda>(h, k, due). h < Suc n) xs"
  by (induction xs) auto

lemma ready_in_range: "ready s c \<noteq> CLOSED \<Longrightarrow> c < length (conns s)"
  by (auto simp: ready_def split: if_splits)

lemma ws_close_inv:
  assumes "one_connection s" and "ws s = Some w"
  shows "one_connection ((ws_close w s)\<lparr>ws := None\<rparr>)"
  using assms
  by (auto simp: one_connection_def ws_close_def emit_def live_set_ready_open ready_set_ready
      dest: ready_in_range)

lemma ws_terminate_inv:
  assumes "one_connection s" and "ws s = Some w"
  shows "one_connection (ws_terminate w s)"
  using assms
  by (auto simp: one_connection_def ws_terminate_def emit_def live_set_ready_open ready_set_ready
      dest: ready_in_range)

lemma clear_timer_inv: "one_connection s \<Longrightarrow> one_connection (clear_timer h s)"
  using filter_two_length [of "\<lambda>(h, k, due). k = Reconnect" "\<lambda>(i, k, due). i \<noteq> h" "timers s"]
  by (auto simp: one_connection_def timer_prims fresh_filter reconnect_timers_def split: option.splits)

lemma remove_timer_inv: "one_connection s \<Longrightarrow> one_connection (remove_timer h s)"
  using filter_two_length [of "\<lambda>(h, k, due). k = Reconnect" "\<lambda>(i, k, due). i \<noteq> h" "timers s"]
  by (auto simp: one_connection_def timer_prims fresh_filter reconnect_timers_def split: option.splits)

lemma emit_inv: "one_connection (emit x s) = one_connection s"
  by (simp add: one_connection_def emit_def split: option.splits)

lemma field_inv [simp]:
  "one_connection (s\<lparr>pingTimeout := a2\<rparr>) = one_connection s"
  "one_connection (s\<lparr>keepAliveInterval := a3\<rparr>) = one_connection s"
  "one_connection (s\<lparr>stopped := a4\<rparr>) = one_connection s"
  "one_connection (s\<lparr>reconnectDelay := a5\<rparr>) = one_connection s"
  "one_connection (s\<lparr>now := a8\<rparr>) = one_connection s"
  "one_connection (s\<lparr>trace := a9\<rparr>) = one_connection s"
  by (simp_all add: one_connection_def split: option.splits)

lemma set_timer_inv:
  "k \<noteq> Reconnect \<Longrightarrow> one_connection s \<Longrightarrow> one_connection (snd (set_timer k d s))"
  by (auto simp: one_connection_def set_timer_def emit_def fresh_Suc reconnect_timers_def
      split: option.splits)

lemma connect_new_inv:
  assumes "live_sockets s = 0" and "reconnect_timers s = []"
    and "list_all (\<lambda>(h, k, due). h < next_timer s) (timers s)" and "ws s = None"
  shows "one_connection (connect E a s)"
  using assms
  by (simp add: connect_def one_connection_def emit_def log_eq Let_def ready_def live_sockets_def
      reconnect_timers_def nth_append)

lemma initial_inv: "one_connection (resilientEventListener E a)"
  by (rule connect_new_inv [of initial, folded resilientEventListener_def])
    (simp_all add: initial_def live_sockets_def reconnect_timers_def)

lemma fire_reconnect_inv:
  assumes "one_connection s" and "map_of (timers s) h = Some (Reconnect, d)"
  shows "one_connection (connect E a (remove_timer h s))"
proof -
  from assms(2) have m: "(h, Reconnect, d) \<in> set (reconnect_timers s)"
    by (auto simp: reconnect_timers_def dest: map_of_SomeD)
  then have pos: "0 < length (reconnect_timers s)" by (metis length_pos_if_in_set)
  from assms(1) have "live_sockets s + length (reconnect_timers s) \<le> 1"
    by (simp add: one_connection_def)
  with pos have l: "live_sockets s = 0" and r: "length (reconnect_timers s) = 1"
    by linarith+
  have w: "ws s = None"
  proof (cases "ws s")
    case None
    then show ?thesis .
  next
    case (Some c)
    with assms(1) have "ready s c \<noteq> CLOSED" by (simp add: one_connection_def)
    from live_pos [OF this] l show ?thesis by simp
  qed
  have "length (filter (\<lambda>(i, k, due). i \<noteq> h) (reconnect_timers s)) < length (reconnect_timers s)"
    using m by (intro length_filter_less [of "(h, Reconnect, d)"]) auto
  with r have "filter (\<lambda>(i, k, due). i \<noteq> h) (reconnect_timers s) = []" by simp
  then have r': "reconnect_timers (remove_timer h s) = []"
    by (simp add: remove_timer_def reconnect_timers_def conj_commute)
  have f: "list_all (\<lambda>(h, k, due). h < next_timer (remove_timer h s)) (timers (remove_timer h s))"
    using assms(1) by (simp add: one_connection_def remove_timer_def fresh_filter)
  show ?thesis
    by (rule connect_new_inv) (use l w r' f in \<open>simp_all add: remove_timer_def\<close>)
qed

lemma set_ready_inv:
  "one_connection s \<Longrightarrow> ready s c \<noteq> CLOSED \<Longrightarrow> r \<noteq> CLOSED \<Longrightarrow> one_connection (set_ready c r s)"
  by (auto simp: one_connection_def live_set_ready_open ready_set_ready split: option.splits)

lemma rearm_timer_inv: "one_connection (rearm_timer h p s) = one_connection s"
  by (simp add: one_connection_def rearm_timer_def rearm_kinds rearm_fresh
      reconnect_timers_def split: option.splits)

lemma ws_send_inv: "ws_send w m s = Inr s' \<Longrightarrow> one_connection s' = one_connection s"
  by (auto simp: ws_send_def emit_inv split: if_splits)

lemma onopen_inv:
  assumes "one_connection s" and "onopen E a s = Inr s'"
  shows "one_connection s'"
  using assms
  by (auto simp: onopen_def log_eq emit_inv Let_def split_beta
      dest!: ws_send_inv intro!: set_timer_inv split: option.splits sum.splits)

lemma keepAliveTick_inv:
  assumes "one_connection s" and "keepAliveTick a s = Inr s'"
  shows "one_connection s'"
  using assms
  by (auto simp: keepAliveTick_def log_eq emit_inv Let_def split_beta
      dest!: ws_send_inv intro!: set_timer_inv split: option.splits sum.splits if_splits)

lemma pingTimeoutFired_inv: "one_connection s \<Longrightarrow> one_connection (pingTimeoutFired s)"
  by (auto simp: pingTimeoutFired_def log_eq emit_inv emit_def intro!: ws_terminate_inv
      split: option.splits)

lemma set_subscriptionId_inv: "one_connection (set_subscriptionId c v s) = one_connection s"
  by (simp add: one_connection_def conn_simps split: option.splits)

lemma dispatch_inv:
  assumes "one_connection s" and "dispatch E a c p s = Inr s'"
  shows "one_connection s'"
  using assms
  by (auto simp: dispatch_def log_eq emit_inv Let_def set_subscriptionId_inv
      intro!: clear_timer_inv split: option.splits sum.splits if_splits)

lemma onmessage_inv:
  assumes "one_connection s" and "onmessage E a c d s = Inr s'"
  shows "one_connection s'"
  using assms
  by (auto simp: onmessage_def log_eq emit_inv dest: dispatch_inv
      split: ws_data.splits option.splits)

lemma clear_opt_inv:
  "one_connection s \<Longrightarrow> one_connection (case x of None \<Rightarrow> s | Some h \<Rightarrow> clear_timer h s)"
  by (cases x) (simp_all add: clear_timer_inv)

lemma clear_timer_fields [simp]:
  "ws (clear_timer h s) = ws s" "stopped (clear_timer h s) = stopped s"
  "conns (clear_timer h s) = conns s" "next_timer (clear_timer h s) = next_timer s"
  "pingTimeout (clear_timer h s) = pingTimeout s"
  "keepAliveInterval (clear_timer h s) = keepAliveInterval s"
  "reconnectDelay (clear_timer h s) = reconnectDelay s" "now (clear_timer h s) = now s"
  "ready (clear_timer h s) c = ready s c" "live_sockets (clear_timer h s) = live_sockets s"
  by (simp_all add: clear_timer_def emit_def)

lemma clear_timer_reconnects:
  "length (reconnect_timers (clear_timer h s)) \<le> length (reconnect_timers s)"
  using filter_two_length [of "\<lambda>(h, k, due). k = Reconnect" "\<lambda>(i, k, due). i \<noteq> h" "timers s"]
  by (simp add: clear_timer_def emit_def reconnect_timers_def)

lemma clear_timer_fresh:
  "list_all (\<lambda>(h, k, due). h < n) (timers s) \<Longrightarrow> list_all (\<lambda>(h, k, due). h < n) (timers (clear_timer h' s))"
  by (simp add: clear_timer_def emit_def fresh_filter)

lemma cleared_facts:
  "ws (cleared s) = ws s" "stopped (cleared s) = stopped s"
  "next_timer (cleared s) = next_timer s" "live_sockets (cleared s) = live_sockets s"
  "reconnectDelay (cleared s) = reconnectDelay s"
  "length (reconnect_timers (cleared s)) \<le> length (reconnect_timers s)"
  "list_all (\<lambda>(h, k, due). h < n) (timers s) \<Longrightarrow> list_all (\<lambda>(h, k, due). h < n) (timers (cleared s))"
proof -
  show "ws (cleared s) = ws s" "stopped (cleared s) = stopped s"
    "next_timer (cleared s) = next_timer s" "live_sockets (cleared s) = live_sockets s"
    "reconnectDelay (cleared s) = reconnectDelay s"
    by (simp_all add: cleared_def Let_def split: option.splits)
  have a: "\<And>h t. length (reconnect_timers (clear_timer h t)) \<le> length (reconnect_timers t)"
    by (rule clear_timer_reconnects)
  show "length (reconnect_timers (cleared s)) \<le> length (reconnect_timers s)"
    by (auto simp: cleared_def Let_def split: option.splits intro: a order_trans [OF a a])
  show "list_all (\<lambda>(h, k, due). h < n) (timers s) \<Longrightarrow> list_all (\<lambda>(h, k, due). h < n) (timers (cleared s))"
    by (auto simp: cleared_def Let_def clear_timer_fresh split: option.splits)
qed

lemma onclose_cleared:
  "onclose s =
     (let s4 = (cleared (log Info ''WebSocket connection closed.'' [] s))\<lparr>ws := None\<rparr>
      in if \<not> stopped s4 then
           let (h, s5) = set_timer Reconnect (reconnectDelay s4) s4
           in s5\<lparr>reconnectDelay := min (reconnectDelay s5 * 2) 30000\<rparr>
         else s4)"
  by (simp add: onclose_def cleared_def Let_def)

lemma onclose_inv:
  assumes "one_connection s" and "ready s c \<noteq> CLOSED"
  shows "one_connection (onclose (set_ready c CLOSED s))"
proof -
  let ?s0 = "set_ready c CLOSED s"
  let ?s1 = "cleared (log Info ''WebSocket connection closed.'' [] ?s0)"
  from live_set_ready_closed [OF assms(2)] have l: "Suc (live_sockets ?s0) = live_sockets s" .
  have r: "length (reconnect_timers ?s1) \<le> length (reconnect_timers s)"
    using cleared_facts(6) [of "log Info ''WebSocket connection closed.'' [] ?s0"]
    by (simp add: log_eq emit_def)
  from assms(1) have f0: "list_all (\<lambda>(h, k, due). h < next_timer s) (timers s)"
    and b: "live_sockets s + length (reconnect_timers s) \<le> 1"
    by (simp_all add: one_connection_def)
  from f0 have f: "list_all (\<lambda>(h, k, due). h < next_timer s) (timers ?s1)"
    by (intro cleared_facts(7)) (simp add: log_eq emit_def)
  have n: "next_timer ?s1 = next_timer s" and v: "live_sockets ?s1 = live_sockets ?s0"
    by (simp_all add: cleared_facts log_eq emit_def)
  from l r b v have b': "live_sockets ?s1 + length (reconnect_timers ?s1) + 1 \<le> 1" by linarith
  show ?thesis
    using b' f n
    by (simp add: onclose_cleared Let_def set_timer_def emit_def one_connection_def
        reconnect_timers_def fresh_Suc)
qed

lemma stop_cleared:
  "stop s =
     (let s2 = (log Info ''Stopping resilient event listener.'' [] s)\<lparr>stopped := True\<rparr>
      in cleared (case ws s2 of None \<Rightarrow> s2 | Some w \<Rightarrow> (ws_close w s2)\<lparr>ws := None\<rparr>))"
  by (simp add: stop_def cleared_def Let_def)

lemma cleared_inv: "one_connection s \<Longrightarrow> one_connection (cleared s)"
  by (simp add: cleared_def Let_def clear_opt_inv)

lemma stop_inv: "one_connection s \<Longrightarrow> one_connection (stop s)"
  by (auto simp: stop_cleared Let_def log_eq emit_def intro!: cleared_inv ws_close_inv
      split: option.splits)

lemma step_inv:
  assumes "step E a s te = Inr s'" and "one_connection s"
  shows "one_connection s'"
proof (cases te)
  case (Pair t ev)
  let ?s0 = "s\<lparr>now := t\<rparr>"
  from assms(2) have i0: "one_connection ?s0" by simp
  show ?thesis
  proof (cases ev)
    case (OpenEv c)
    with assms(1) Pair have r: "ready ?s0 c = CONNECTING"
      and h: "onopen E a (set_ready c OPEN ?s0) = Inr s'"
      by (auto simp: step_def lift_def Let_def split: if_splits sum.splits)
    from r have "one_connection (set_ready c OPEN ?s0)"
      by (intro set_ready_inv i0) simp_all
    from onopen_inv [OF this h] show ?thesis .
  next
    case (MessageEv c d)
    with assms(1) Pair have "onmessage E a c d ?s0 = Inr s'"
      by (auto simp: step_def lift_def Let_def split: if_splits sum.splits)
    from onmessage_inv [OF i0 this] show ?thesis .
  next
    case (ErrorEv c m)
    with assms(1) Pair have "s' = onerror m ?s0"
      by (auto simp: step_def Let_def split: if_splits)
    with i0 show ?thesis by (simp add: onerror_def log_eq emit_inv)
  next
    case (CloseEv c)
    with assms(1) Pair have r: "ready ?s0 c \<noteq> CLOSED"
      and h: "s' = onclose (set_ready c CLOSED ?s0)"
      by (auto simp: step_def Let_def split: if_splits)
    from onclose_inv [OF i0 r] h show ?thesis by simp
  next
    case (UnexpectedResponseEv c sc sm)
    with assms(1) Pair have "s' = onunexpected sc sm ?s0"
      by (auto simp: step_def Let_def split: if_splits)
    with i0 show ?thesis by (simp add: onunexpected_def log_eq emit_inv stop_inv)
  next
    case (TimerEv h)
    with assms(1) Pair have f: "fire_timer E a h ?s0 = Inr s'"
      by (auto simp: step_def Let_def split: if_splits)
    then obtain k due where m: "map_of (timers ?s0) h = Some (k, due)"
      by (auto simp: fire_timer_def split: option.splits)
    show ?thesis
    proof (cases k)
      case Reconnect
      with f m have "s' = connect E a (remove_timer h ?s0)"
        by (auto simp: fire_timer_def split: if_splits)
      with fire_reconnect_inv [OF i0] m Reconnect show ?thesis by simp
    next
      case (KeepAlive period)
      with f m have "keepAliveTick a (rearm_timer h period ?s0) = Inr s'"
        by (auto simp: fire_timer_def lift_def split: if_splits sum.splits)
      from keepAliveTick_inv [OF _ this] i0 show ?thesis by (simp add: rearm_timer_inv)
    next
      case PingTimeout
      with f m have "s' = pingTimeoutFired (remove_timer h ?s0)"
        by (auto simp: fire_timer_def split: if_splits)
      with i0 show ?thesis by (simp add: pingTimeoutFired_inv remove_timer_inv)
    qed
  next
    case StopEv
    with assms(1) Pair have "s' = stop ?s0"
      by (auto simp: step_def Let_def split: if_splits)
    with i0 show ?thesis by (simp add: stop_inv)
  qed
qed

lemma run_inv:
  "run E a s tes = Inr s' \<Longrightarrow> one_connection s \<Longrightarrow> one_connection s'"
proof (induction tes arbitrary: s)
  case Nil
  then show ?case by simp
next
  case (Cons te tes)
  then obtain s1 where 1: "step E a s te = Inr s1" and 2: "run E a s1 tes = Inr s'"
    by (auto split: sum.splits)
  from Cons.IH [OF 2 step_inv [OF 1 Cons.prems(2)]] show ?case .
qed

lemma reachable_inv:
  "run E a (resilientEventListener E a) tes = Inr s \<Longrightarrow> one_connection s"
  by (rule run_inv [OF _ initial_inv])

section \<open>The liveness probe\<close>

lemma map_of_rearm_other:
  "h \<noteq> h' \<Longrightarrow>
   map_of (map (\<lambda>(i, k, due). if i = h' then (i, k, due + d) else (i, k, due)) xs) h = map_of xs h"
  by (induction xs) auto

lemma map_of_append_found:
  "map_of xs h = Some v \<Longrightarrow> map_of (xs @ ys) h = Some v"
  by (simp add: map_of_append)

lemma map_of_fresh:
  "list_all (\<lambda>(h, k, due). h < (n::nat)) xs \<Longrightarrow> map_of xs n = None"
  by (induction xs) auto

lemma no_reconnect_lookup:
  "filter (\<lambda>(h, k, due). k = Reconnect) xs = [] \<Longrightarrow> map_of xs h \<noteq> Some (Reconnect, d)"
  by (induction xs) (auto split: if_splits)

lemma onopen_quiet:
  assumes "onopen E a s = Inr s'"
  shows "ws s' = ws s \<and> stopped s' = stopped s \<and> ready s' c = ready s c
    \<and> reconnect_timers s' = reconnect_timers s
    \<and> (map_of (timers s) h = Some v \<longrightarrow> map_of (timers s') h = Some v)"
  using assms
  by (auto simp: onopen_def timer_prims ws_send_def Let_def reconnect_timers_def
      map_of_append_found split: option.splits if_splits)

lemma keepAliveTick_quiet:
  assumes "keepAliveTick a s = Inr s'"
  shows "ws s' = ws s \<and> stopped s' = stopped s \<and> ready s' c = ready s c
    \<and> reconnect_timers s' = reconnect_timers s
    \<and> (map_of (timers s) h = Some v \<longrightarrow> map_of (timers s') h = Some v)"
  using assms
  by (auto simp: keepAliveTick_def timer_prims ws_send_def Let_def reconnect_timers_def
      map_of_append_found split: option.splits if_splits)

lemma pingTimeoutFired_quiet:
  "ws (pingTimeoutFired s) = ws s \<and> stopped (pingTimeoutFired s) = stopped s
    \<and> (ready s c \<noteq> CLOSED \<longrightarrow> ready (pingTimeoutFired s) c \<noteq> CLOSED)
    \<and> timers (pingTimeoutFired s) = timers s"
  by (auto simp: pingTimeoutFired_def ws_terminate_def emit_def log_eq ready_set_ready
      split: option.splits)

lemma dispatch_quiet:
  assumes "dispatch E a c' p s = Inr s'" and "\<not> is_probe_ack p"
  shows "ws s' = ws s \<and> stopped s' = stopped s \<and> ready s' c = ready s c
    \<and> timers s' = timers s"
  using assms
  by (auto simp: dispatch_def is_probe_ack_def emit_def log_eq Let_def ready_set_subscriptionId
      split: option.splits if_splits sum.splits)

lemma onmessage_quiet:
  assumes "onmessage E a c' d s = Inr s'"
    and "case parsed E d of None \<Rightarrow> True | Some p \<Rightarrow> \<not> is_probe_ack p"
  shows "ws s' = ws s \<and> stopped s' = stopped s \<and> ready s' c = ready s c
    \<and> timers s' = timers s"
proof (cases "parsed E d")
  case None
  with assms(1) show ?thesis
    by (cases d) (auto simp: onmessage_def log_eq emit_def)
next
  case (Some p)
  with assms(2) have n: "\<not> is_probe_ack p" by simp
  from Some assms(1) have "dispatch E a c' p s = Inr s'"
    by (cases d) (auto simp: onmessage_def)
  from dispatch_quiet [OF this n] show ?thesis .
qed

lemma quiet_step:
  assumes "step E a s (t, ev) = Inr s'" and "quiet E h ev" and "connected_to c s"
  shows "connected_to c s'
    \<and> (map_of (timers s) h = Some (PingTimeout, due)
        \<longrightarrow> map_of (timers s') h = Some (PingTimeout, due))"
proof -
  let ?s0 = "s\<lparr>now := t\<rparr>"
  from assms(3) have c0: "connected_to c ?s0" by (simp add: connected_to_def)
  show ?thesis
  proof (cases ev)
    case (OpenEv c')
    with assms(1) have r: "ready ?s0 c' = CONNECTING"
      and h: "onopen E a (set_ready c' OPEN ?s0) = Inr s'"
      by (auto simp: step_def lift_def Let_def split: if_splits sum.splits)
    from onopen_quiet [OF h, of c h "(PingTimeout, due)"] c0 r show ?thesis
      by (auto simp: connected_to_def ready_set_ready)
  next
    case (MessageEv c' d)
    with assms(1) have h: "onmessage E a c' d ?s0 = Inr s'"
      by (auto simp: step_def lift_def Let_def split: if_splits sum.splits)
    from MessageEv assms(2) have "case parsed E d of None \<Rightarrow> True | Some p \<Rightarrow> \<not> is_probe_ack p"
      by simp
    from onmessage_quiet [OF h this, of c] c0 show ?thesis
      by (auto simp: connected_to_def reconnect_timers_def)
  next
    case (ErrorEv c' m)
    with assms(1) have "s' = onerror m ?s0"
      by (auto simp: step_def Let_def split: if_splits)
    with c0 show ?thesis by (simp add: connected_to_def onerror_def log_eq emit_def)
  next
    case (CloseEv c')
    with assms(2) show ?thesis by simp
  next
    case (UnexpectedResponseEv c' sc sm)
    with assms(2) show ?thesis by simp
  next
    case (TimerEv h')
    with assms(2) have ne: "h \<noteq> h'" by simp
    from TimerEv assms(1) have f: "fire_timer E a h' ?s0 = Inr s'"
      by (auto simp: step_def Let_def split: if_splits)
    then obtain k due' where m: "map_of (timers s) h' = Some (k, due')"
      by (auto simp: fire_timer_def split: option.splits)
    show ?thesis
    proof (cases k)
      case Reconnect
      with m assms(3) no_reconnect_lookup [of "timers s" h' due'] show ?thesis
        by (simp add: connected_to_def reconnect_timers_def)
    next
      case (KeepAlive period)
      with f m have "keepAliveTick a (rearm_timer h' period ?s0) = Inr s'"
        by (auto simp: fire_timer_def lift_def split: if_splits sum.splits)
      from keepAliveTick_quiet [OF this, of c h "(PingTimeout, due)"] c0 ne show ?thesis
        by (auto simp: connected_to_def rearm_timer_def rearm_kinds map_of_rearm_other
            reconnect_timers_def)
    next
      case PingTimeout
      with f m have "s' = pingTimeoutFired (remove_timer h' ?s0)"
        by (auto simp: fire_timer_def split: if_splits)
      with pingTimeoutFired_quiet [of "remove_timer h' ?s0" c] c0 ne show ?thesis
        by (auto simp: connected_to_def remove_timer_def reconnect_timers_def
            map_of_filter_keeps filter_empty_conv)
    qed
  next
    case StopEv
    with assms(2) show ?thesis by simp
  qed
qed

lemma quiet_plain: "quiet E h ev \<Longrightarrow> \<not> calls_stop ev \<and> \<not> is_close ev"
  by (cases ev) simp_all

lemma quiet_run:
  assumes "run E a s tes = Inr s'" and "\<forall>te \<in> set tes. quiet E h (snd te)"
    and "connected_to c s"
  shows "connected_to c s'
    \<and> reconnect_delays (trace s') = reconnect_delays (trace s)
    \<and> (map_of (timers s) h = Some (PingTimeout, due)
        \<longrightarrow> map_of (timers s') h = Some (PingTimeout, due))"
  using assms
proof (induction tes arbitrary: s)
  case Nil
  then show ?case by simp
next
  case (Cons te tes)
  obtain t ev where te: "te = (t, ev)" by (cases te)
  from Cons.prems(1) obtain s1 where 1: "step E a s (t, ev) = Inr s1"
    and 2: "run E a s1 tes = Inr s'"
    by (auto simp: te split: sum.splits)
  from Cons.prems(2) have q: "quiet E h ev" and rest: "\<forall>te \<in> set tes. quiet E h (snd te)"
    by (simp_all add: te)
  from Cons.prems(3) have ns: "\<not> stopped s" by (simp add: connected_to_def)
  from quiet_step [OF 1 q Cons.prems(3)] have c1: "connected_to c s1"
    and t1: "map_of (timers s) h = Some (PingTimeout, due)
        \<longrightarrow> map_of (timers s1) h = Some (PingTimeout, due)" by simp_all
  from step_sup [OF 1 ns] quiet_plain [OF q]
  have d1: "reconnect_delays (trace s1) = reconnect_delays (trace s)" by simp
  from Cons.IH [OF 2 rest c1] t1 d1 show ?case by simp
qed

lemma map_of_rearm_fresh:
  "list_all (\<lambda>(h, k, due). h < (n::nat)) xs \<Longrightarrow>
   map_of (map (\<lambda>(i, k, due). if i = h' then (i, k, due + d) else (i, k, due)) xs) n = None"
  by (induction xs) (auto split: if_splits)

lemma connected_no_reconnect:
  assumes "one_connection s" and "ws s = Some c"
  shows "reconnect_timers s = []" and "ready s c \<noteq> CLOSED"
proof -
  from assms show r: "ready s c \<noteq> CLOSED" by (simp add: one_connection_def)
  from assms(1) have "live_sockets s + length (reconnect_timers s) \<le> 1"
    by (simp add: one_connection_def)
  with live_pos [OF r] have "length (reconnect_timers s) = 0" by linarith
  then show "reconnect_timers s = []" by simp
qed

lemma probe_sent:
  assumes "one_connection s" and "ws s = Some c" and "ready s c = OPEN" and "\<not> stopped s"
    and "map_of (timers s) k = Some (KeepAlive period, t0)"
    and "step E a s (t, TimerEv k) = Inr s'"
  shows "trace s' = trace s @
           [LogCall Debug (''Performing health check for subscription to '' @ quoted (eventName a) @ ''.'') [],
            Send c ping,
            SetTimer (next_timer s) PingTimeout (or_default (expectedPongBack a) DEFAULT_EXPECTED_PONG_BACK)]"
    and "t = t0"
    and "map_of (timers s') (next_timer s)
           = Some (PingTimeout, t0 + timer_delay (or_default (expectedPongBack a) DEFAULT_EXPECTED_PONG_BACK))"
    and "connected_to c s'"
proof -
  from assms(6,5) have t: "t = t0"
    by (auto simp: step_def fire_timer_def Let_def split: if_splits)
  from assms(6,5) have h: "keepAliveTick a (rearm_timer k period (s\<lparr>now := t\<rparr>)) = Inr s'"
    by (auto simp: step_def fire_timer_def lift_def Let_def split: if_splits sum.splits)
  from assms(1) have f: "list_all (\<lambda>(h, k, due). h < next_timer s) (timers s)"
    by (simp add: one_connection_def)
  note r = connected_no_reconnect [OF assms(1,2)]
  from h assms(2,3) show "trace s' = trace s @
           [LogCall Debug (''Performing health check for subscription to '' @ quoted (eventName a) @ ''.'') [],
            Send c ping,
            SetTimer (next_timer s) PingTimeout (or_default (expectedPongBack a) DEFAULT_EXPECTED_PONG_BACK)]"
    by (auto simp: keepAliveTick_def rearm_timer_def timer_prims ws_send_def Let_def)
  from t show "t = t0" .
  from h assms(2,3) t map_of_rearm_fresh [OF f, of k "timer_delay period"]
  show "map_of (timers s') (next_timer s)
           = Some (PingTimeout, t0 + timer_delay (or_default (expectedPongBack a) DEFAULT_EXPECTED_PONG_BACK))"
    by (auto simp: keepAliveTick_def rearm_timer_def timer_prims ws_send_def Let_def map_of_append
        map_add_def)
  from keepAliveTick_quiet [OF h, of c] assms(2,3,4) r(1)
  show "connected_to c s'"
    by (simp add: connected_to_def rearm_timer_def rearm_kinds reconnect_timers_def)
qed

lemma deadline_fires:
  assumes "connected_to c s" and "map_of (timers s) h = Some (PingTimeout, due)"
    and "step E a s (t, TimerEv h) = Inr s'"
  shows "t = due"
    and "trace s' = trace s @
           [LogCall Warn ''Ping timeout, terminating WebSocket connection.'' [], Terminate c]"
    and "ready s' c = CLOSING" and "connected_to c s'"
proof -
  from assms(3,2) show t: "t = due"
    by (auto simp: step_def fire_timer_def Let_def split: if_splits)
  from assms(3,2) have s': "s' = pingTimeoutFired (remove_timer h (s\<lparr>now := t\<rparr>))"
    by (auto simp: step_def fire_timer_def Let_def split: if_splits)
  from assms(1) have w: "ws s = Some c" and r: "ready s c \<noteq> CLOSED" and n: "\<not> stopped s"
    and e: "reconnect_timers s = []"
    by (simp_all add: connected_to_def)
  from r have c: "c < length (conns s)" by (rule ready_in_range)
  from s' w show "trace s' = trace s @
           [LogCall Warn ''Ping timeout, terminating WebSocket connection.'' [], Terminate c]"
    by (simp add: pingTimeoutFired_def remove_timer_def ws_terminate_def emit_def log_eq)
  from s' w r c show g: "ready s' c = CLOSING"
    by (simp add: pingTimeoutFired_def remove_timer_def ws_terminate_def emit_def log_eq
        ready_set_ready)
  from s' w n e g show "connected_to c s'"
    by (simp add: connected_to_def pingTimeoutFired_quiet remove_timer_def reconnect_timers_def
        filter_empty_conv)
qed

lemma cleared_no_reconnect: "reconnect_timers s = [] \<Longrightarrow> reconnect_timers (cleared s) = []"
  using cleared_facts(6) [of s] by simp

lemma close_reconnects_once:
  assumes "connected_to c s" and "step E a s (t, CloseEv c) = Inr s'"
  shows "reconnect_delays (trace s') = reconnect_delays (trace s) @ [reconnectDelay s]"
    and "reconnect_timers s' = [(next_timer s, Reconnect, t + timer_delay (reconnectDelay s))]"
proof -
  from assms(1) have n: "\<not> stopped s" and e: "reconnect_timers s = []"
    by (simp_all add: connected_to_def)
  from step_sup [OF assms(2) n] show "reconnect_delays (trace s') = reconnect_delays (trace s) @ [reconnectDelay s]"
    by simp
  let ?s0 = "set_ready c CLOSED (s\<lparr>now := t\<rparr>)"
  let ?s1 = "cleared (log Info ''WebSocket connection closed.'' [] ?s0)"
  from assms(2) have s': "s' = onclose ?s0"
    by (auto simp: step_def Let_def split: if_splits)
  have "reconnect_timers (log Info ''WebSocket connection closed.'' [] ?s0) = []"
    using e by (simp add: log_eq emit_def)
  from cleared_no_reconnect [OF this] have e1: "reconnect_timers ?s1 = []" .
  have f: "\<not> stopped ?s1" "next_timer ?s1 = next_timer s" "reconnectDelay ?s1 = reconnectDelay s"
    "now ?s1 = t"
    using n by (simp_all add: cleared_facts log_eq emit_def cleared_def Let_def split: option.splits)
  from e1 f show "reconnect_timers s' = [(next_timer s, Reconnect, t + timer_delay (reconnectDelay s))]"
    by (simp add: s' onclose_cleared Let_def set_timer_def emit_def reconnect_timers_def)
qed

text \<open>
  C3.  Take any state the listener reaches in which it holds an open socket and has not
  been stopped, and let a keep-alive tick send a probe there.  If what follows is neither
  an answer to a probe nor a close nor a call of \<^verbatim>\<open>stop()\<close>, the deadline armed with
  the probe fires exactly the configured timeout after the tick and terminates the
  socket.  When the socket then reports its close, one reconnect is scheduled, with the
  current delay: it is the only reconnect scheduled since the probe and the only one
  pending.
\<close>

theorem unanswered_probe_terminates_and_reconnects_once:
  assumes "run E a (resilientEventListener E a) pre = Inr s0"
    and "ws s0 = Some c" and "ready s0 c = OPEN" and "\<not> stopped s0"
    and "map_of (timers s0) k = Some (KeepAlive period, t0)"
    and "step E a s0 (t0, TimerEv k) = Inr s1"
    and "run E a s1 tes = Inr s2" and "\<forall>te \<in> set tes. quiet E (next_timer s0) (snd te)"
    and "step E a s2 (t2, TimerEv (next_timer s0)) = Inr s3"
    and "run E a s3 tes' = Inr s4" and "\<forall>te \<in> set tes'. quiet E (next_timer s0) (snd te)"
    and "step E a s4 (t4, CloseEv c) = Inr s5"
  shows "trace s1 = trace s0 @
           [LogCall Debug (''Performing health check for subscription to '' @ quoted (eventName a) @ ''.'') [],
            Send c ping,
            SetTimer (next_timer s0) PingTimeout (or_default (expectedPongBack a) DEFAULT_EXPECTED_PONG_BACK)]
    \<and> t2 = t0 + timer_delay (or_default (expectedPongBack a) DEFAULT_EXPECTED_PONG_BACK)
    \<and> trace s3 = trace s2 @
           [LogCall Warn ''Ping timeout, terminating WebSocket connection.'' [], Terminate c]
    \<and> ready s3 c = CLOSING
    \<and> reconnect_delays (trace s4) = reconnect_delays (trace s0)
    \<and> reconnect_delays (trace s5) = reconnect_delays (trace s0) @ [reconnectDelay s4]
    \<and> reconnect_timers s5 = [(next_timer s4, Reconnect, t4 + timer_delay (reconnectDelay s4))]"
proof -
  let ?h = "next_timer s0"
  let ?due = "t0 + timer_delay (or_default (expectedPongBack a) DEFAULT_EXPECTED_PONG_BACK)"
  note i0 = reachable_inv [OF assms(1)]
  note p = probe_sent [OF i0 assms(2,3,4,5,6)]
  from step_sup [OF assms(6,4)] have d1: "reconnect_delays (trace s1) = reconnect_delays (trace s0)"
    by simp
  from quiet_run [OF assms(7,8) p(4), of ?due] p(3)
  have c2: "connected_to c s2" and d2: "reconnect_delays (trace s2) = reconnect_delays (trace s1)"
    and m2: "map_of (timers s2) ?h = Some (PingTimeout, ?due)" by simp_all
  note f = deadline_fires [OF c2 m2 assms(9)]
  from c2 have "\<not> stopped s2" by (simp add: connected_to_def)
  from step_sup [OF assms(9) this] have d3: "reconnect_delays (trace s3) = reconnect_delays (trace s2)"
    by simp
  from quiet_run [OF assms(10,11) f(4), of ?due]
  have c4: "connected_to c s4" and d4: "reconnect_delays (trace s4) = reconnect_delays (trace s3)"
    by simp_all
  note g = close_reconnects_once [OF c4 assms(12)]
  from p(1) f(1,2,3) d1 d2 d3 d4 g show ?thesis by simp
qed

theorem unanswered_probe_terminates_and_reconnects_once_witness:
  "\<exists>s5. run example_externals example_args (resilientEventListener example_externals example_args)
           [(0, OpenEv 0), (1000, TimerEv 0), (1100, MessageEv 0 (DString ''not json'')),
            (2000, TimerEv 0), (2500, TimerEv 1), (2510, CloseEv 0)] = Inr s5
        \<and> reconnect_timers s5 = [(3, Reconnect, 3510)]
        \<and> reconnect_delays (trace s5) = [1000]"
proof -
  let ?E = example_externals and ?a = example_args
  let ?w = "[(1100, MessageEv 0 (DString ''not json'')), (2000, TimerEv 0)]"
  let ?all = "[(0, OpenEv 0), (1000, TimerEv 0), (1100, MessageEv 0 (DString ''not json'')),
            (2000, TimerEv 0), (2500, TimerEv 1), (2510, CloseEv 0)]"
  obtain s5 where r: "run ?E ?a (resilientEventListener ?E ?a) ?all = Inr s5"
    and f: "reconnect_timers s5 = [(3, Reconnect, 3510)]" "reconnect_delays (trace s5) = [1000]"
    by (simp add: evals reconnect_timers_def)
  from r obtain s0 s1 s2 s3
    where 1: "run ?E ?a (resilientEventListener ?E ?a) [(0, OpenEv 0)] = Inr s0"
      and 6: "step ?E ?a s0 (1000, TimerEv 0) = Inr s1"
      and 7: "run ?E ?a s1 ?w = Inr s2"
      and 9: "step ?E ?a s2 (2500, TimerEv 1) = Inr s3"
      and 12: "step ?E ?a s3 (2510, CloseEv 0) = Inr s5"
    by (auto split: sum.splits)
  from 1 have 2: "ws s0 = Some 0" and 3: "ready s0 0 = OPEN" and 4: "\<not> stopped s0"
    and 5: "map_of (timers s0) 0 = Some (KeepAlive 1000, 1000)" and n: "next_timer s0 = 1"
    by (auto simp: evals)
  have 8: "\<forall>te \<in> set ?w. quiet ?E (next_timer s0) (snd te)"
    by (simp add: n example_externals_def example_parse_def)
  from 9 n have 9: "step ?E ?a s2 (2500, TimerEv (next_timer s0)) = Inr s3" by simp
  have 10: "run ?E ?a s3 [] = Inr s3" by simp
  have 11: "\<forall>te \<in> set []. quiet ?E (next_timer s0) (snd te)" by simp
  from unanswered_probe_terminates_and_reconnects_once [OF 1 2 3 4 5 6 7 8 9 10 11 12] r f
  show ?thesis by blast
qed

text \<open>
  C4 (the code does not do this).  An answer to a probe that arrives before the deadline
  should cancel the deadline and leave the connection open, also when the probe timeout
  is not less than the keep-alive interval.  With an interval of 1 s and a timeout of
  1.5 s: probes leave at 1 s and at 2 s, and the second tick overwrites the handle of the
  first deadline.  The answer arrives at 2.1 s, before both deadlines, and clears the
  second one only.  The first deadline is still pending; at 2.5 s it fires and terminates
  the socket, and the close schedules a reconnect.
\<close>

theorem answered_probe_is_terminated_by_stale_deadline:
  \<open>map_sum id (\<lambda>s. (timers s, pingTimeout s))
     (run example_externals example_args (resilientEventListener example_externals example_args)
        [(0, OpenEv 0), (1000, TimerEv 0), (2000, TimerEv 0),
         (2100, MessageEv 0 (DString ''{"id":2,"result":true}''))])
   = Inr ([(0, KeepAlive 1000, 3000), (1, PingTimeout, 2500)], None)
   \<and> map_sum id (\<lambda>s. (last (trace s), ready s 0))
     (run example_externals example_args (resilientEventListener example_externals example_args)
        [(0, OpenEv 0), (1000, TimerEv 0), (2000, TimerEv 0),
         (2100, MessageEv 0 (DString ''{"id":2,"result":true}'')), (2500, TimerEv 1)])
   = Inr (Terminate 0, CLOSING)
   \<and> map_sum id reconnect_timers
     (run example_externals example_args (resilientEventListener example_externals example_args)
        [(0, OpenEv 0), (1000, TimerEv 0), (2000, TimerEv 0),
         (2100, MessageEv 0 (DString ''{"id":2,"result":true}'')), (2500, TimerEv 1),
         (2510, CloseEv 0)])
   = Inr [(3, Reconnect, 3510)]\<close>
  by (simp add: evals reconnect_timers_def)

lemma probe_ack_not_handshake: "is_probe_ack p \<Longrightarrow> \<not> is_handshake_ack E a p"
  by (cases "opt_prop p ''id''") (auto simp: tests opt_prop_def request_def ping_def)

lemma probe_ack_clears_latest_deadline:
  assumes "is_probe_ack p" and "pingTimeout s = Some h"
  shows "dispatch E a c p s
           = Inr ((clear_timer h (log Debug ''Health check successful.'' [] s))\<lparr>pingTimeout := None\<rparr>)"
  using assms probe_ack_not_handshake [OF assms(1), of E a]
  by (auto simp: dispatch_def tests log_eq emit_def Let_def)

section \<open>Stopping while a reconnect is pending\<close>

lemma handles_ok_fields [simp]:
  "handles_ok (s\<lparr>ws := a1\<rparr>) = handles_ok s"
  "handles_ok (s\<lparr>stopped := a4\<rparr>) = handles_ok s"
  "handles_ok (s\<lparr>reconnectDelay := a5\<rparr>) = handles_ok s"
  "handles_ok (s\<lparr>conns := a6\<rparr>) = handles_ok s"
  "handles_ok (s\<lparr>now := a8\<rparr>) = handles_ok s"
  "handles_ok (s\<lparr>trace := a9\<rparr>) = handles_ok s"
  by (simp_all add: handles_ok_def split: option.splits)

lemma handles_ok_set [simp]:
  "handles_ok (set_ready c r s) = handles_ok s"
  "handles_ok (set_subscriptionId c v s) = handles_ok s"
  "handles_ok (emit x s) = handles_ok s"
  by (simp_all add: set_ready_def set_subscriptionId_def emit_def)

lemma handles_ok_filter:
  "handles_ok s \<Longrightarrow> handles_ok (s\<lparr>timers := filter Q (timers s)\<rparr>)"
  by (auto simp: handles_ok_def list_all_iff split: option.splits)

lemma handles_ok_clear: "handles_ok s \<Longrightarrow> handles_ok (clear_timer h s)"
  by (simp add: clear_timer_def handles_ok_filter)

lemma handles_ok_remove: "handles_ok s \<Longrightarrow> handles_ok (remove_timer h s)"
  by (simp add: remove_timer_def handles_ok_filter)

lemma handles_ok_rearm: "handles_ok s \<Longrightarrow> handles_ok (rearm_timer h p s)"
  by (auto simp: handles_ok_def rearm_timer_def list_all_iff split: option.splits if_splits)

lemma handles_ok_cleared: "handles_ok s \<Longrightarrow> handles_ok (cleared s)"
  by (auto simp: cleared_def Let_def handles_ok_clear split: option.splits)

lemma handles_ok_ping_none: "handles_ok s \<Longrightarrow> handles_ok (s\<lparr>pingTimeout := None\<rparr>)"
  by (auto simp: handles_ok_def list_all_iff split: option.splits)

lemma handles_ok_new_reconnect:
  "handles_ok s \<Longrightarrow> handles_ok (snd (set_timer Reconnect d s))"
  by (auto simp: handles_ok_def set_timer_def emit_def list_all_iff split: option.splits)

lemma handles_ok_new_keepalive:
  "handles_ok s \<Longrightarrow>
   handles_ok ((snd (set_timer (KeepAlive p) d s))\<lparr>keepAliveInterval := Some (fst (set_timer (KeepAlive p) d s))\<rparr>)"
  by (auto simp: handles_ok_def set_timer_def emit_def list_all_iff split: option.splits)

lemma handles_ok_new_ping:
  "handles_ok s \<Longrightarrow>
   handles_ok ((snd (set_timer PingTimeout d s))\<lparr>pingTimeout := Some (fst (set_timer PingTimeout d s))\<rparr>)"
  by (auto simp: handles_ok_def set_timer_def emit_def list_all_iff split: option.splits)

lemma handles_ok_connect: "handles_ok (connect E a s) = handles_ok s"
  by (simp add: connect_def log_eq Let_def)

lemma handles_ok_onopen: "handles_ok s \<Longrightarrow> onopen E a s = Inr s' \<Longrightarrow> handles_ok s'"
  by (auto simp: onopen_def log_eq ws_send_def Let_def split_beta
      intro!: handles_ok_new_keepalive split: option.splits if_splits)

lemma handles_ok_tick: "handles_ok s \<Longrightarrow> keepAliveTick a s = Inr s' \<Longrightarrow> handles_ok s'"
  by (auto simp: keepAliveTick_def log_eq ws_send_def Let_def split_beta
      intro!: handles_ok_new_ping split: option.splits if_splits)

lemma handles_ok_pingTimeoutFired: "handles_ok (pingTimeoutFired s) = handles_ok s"
  by (simp add: pingTimeoutFired_def ws_terminate_def log_eq split: option.splits)

lemma handles_ok_dispatch: "handles_ok s \<Longrightarrow> dispatch E a c p s = Inr s' \<Longrightarrow> handles_ok s'"
  by (auto simp: dispatch_def log_eq Let_def intro!: handles_ok_ping_none handles_ok_clear
      split: option.splits if_splits sum.splits)

lemma handles_ok_onmessage: "handles_ok s \<Longrightarrow> onmessage E a c d s = Inr s' \<Longrightarrow> handles_ok s'"
  by (auto simp: onmessage_def log_eq dest: handles_ok_dispatch split: ws_data.splits option.splits)

lemma handles_ok_onclose: "handles_ok s \<Longrightarrow> handles_ok (onclose s)"
  using handles_ok_new_reconnect [of "(cleared (log Info ''WebSocket connection closed.'' [] s))\<lparr>ws := None\<rparr>"]
  by (auto simp: onclose_cleared Let_def split_beta log_eq handles_ok_cleared)

lemma handles_ok_stop: "handles_ok s \<Longrightarrow> handles_ok (stop s)"
  by (auto simp: stop_cleared Let_def log_eq ws_close_def intro!: handles_ok_cleared
      split: option.splits)

lemma handles_ok_step:
  assumes "step E a s te = Inr s'" and "handles_ok s"
  shows "handles_ok s'"
proof (cases te)
  case (Pair t ev)
  let ?s0 = "s\<lparr>now := t\<rparr>"
  from assms(2) have i0: "handles_ok ?s0" by simp
  show ?thesis
  proof (cases ev)
    case (OpenEv c)
    with assms(1) Pair have "onopen E a (set_ready c OPEN ?s0) = Inr s'"
      by (auto simp: step_def lift_def Let_def split: if_splits sum.splits)
    from handles_ok_onopen [OF _ this] i0 show ?thesis by simp
  next
    case (MessageEv c d)
    with assms(1) Pair have "onmessage E a c d ?s0 = Inr s'"
      by (auto simp: step_def lift_def Let_def split: if_splits sum.splits)
    from handles_ok_onmessage [OF i0 this] show ?thesis .
  next
    case (ErrorEv c m)
    with assms(1) Pair have "s' = onerror m ?s0"
      by (auto simp: step_def Let_def split: if_splits)
    with i0 show ?thesis by (simp add: onerror_def log_eq)
  next
    case (CloseEv c)
    with assms(1) Pair have "s' = onclose (set_ready c CLOSED ?s0)"
      by (auto simp: step_def Let_def split: if_splits)
    with i0 show ?thesis by (simp add: handles_ok_onclose)
  next
    case (UnexpectedResponseEv c sc sm)
    with assms(1) Pair have "s' = onunexpected sc sm ?s0"
      by (auto simp: step_def Let_def split: if_splits)
    with i0 show ?thesis by (simp add: onunexpected_def log_eq handles_ok_stop)
  next
    case (TimerEv h)
    with assms(1) Pair have f: "fire_timer E a h ?s0 = Inr s'"
      by (auto simp: step_def Let_def split: if_splits)
    then obtain k due where m: "map_of (timers ?s0) h = Some (k, due)"
      by (auto simp: fire_timer_def split: option.splits)
    show ?thesis
    proof (cases k)
      case Reconnect
      with f m have "s' = connect E a (remove_timer h ?s0)"
        by (auto simp: fire_timer_def split: if_splits)
      with i0 show ?thesis by (simp add: handles_ok_connect handles_ok_remove)
    next
      case (KeepAlive period)
      with f m have "keepAliveTick a (rearm_timer h period ?s0) = Inr s'"
        by (auto simp: fire_timer_def lift_def split: if_splits sum.splits)
      from handles_ok_tick [OF _ this] i0 show ?thesis by (simp add: handles_ok_rearm)
    next
      case PingTimeout
      with f m have "s' = pingTimeoutFired (remove_timer h ?s0)"
        by (auto simp: fire_timer_def split: if_splits)
      with i0 show ?thesis by (simp add: handles_ok_pingTimeoutFired handles_ok_remove)
    qed
  next
    case StopEv
    with assms(1) Pair have "s' = stop ?s0"
      by (auto simp: step_def Let_def split: if_splits)
    with i0 show ?thesis by (simp add: handles_ok_stop)
  qed
qed

lemma handles_ok_run:
  "run E a s tes = Inr s' \<Longrightarrow> handles_ok s \<Longrightarrow> handles_ok s'"
proof (induction tes arbitrary: s)
  case Nil
  then show ?case by simp
next
  case (Cons te tes)
  then obtain s1 where 1: "step E a s te = Inr s1" and 2: "run E a s1 tes = Inr s'"
    by (auto split: sum.splits)
  from Cons.IH [OF 2 handles_ok_step [OF 1 Cons.prems(2)]] show ?case .
qed

lemma handles_ok_reachable:
  "run E a (resilientEventListener E a) tes = Inr s \<Longrightarrow> handles_ok s"
proof (rule handles_ok_run)
  show "handles_ok (resilientEventListener E a)"
    by (simp add: resilientEventListener_def handles_ok_connect) (simp add: handles_ok_def initial_def)
qed

lemma reconnect_handle_not_stored:
  assumes "handles_ok s" and "map_of (timers s) h = Some (Reconnect, due)"
  shows "pingTimeout s \<noteq> Some h" and "keepAliveInterval s \<noteq> Some h"
proof -
  from assms(2) have "(h, Reconnect, due) \<in> set (timers s)" by (rule map_of_SomeD)
  with assms(1) show "pingTimeout s \<noteq> Some h" and "keepAliveInterval s \<noteq> Some h"
    by (auto simp: handles_ok_def list_all_iff)
qed

text \<open>
  C9, amended.  \<^verbatim>\<open>stop()\<close> keeps no handle of a reconnect timer and does not cancel
  it: in every state the listener reaches, a reconnect timer that is pending when
  \<^verbatim>\<open>stop()\<close> is called is still pending when it returns.  When the timer fires, \<^verbatim>\<open>connect\<close> finds the listener stopped: it
  logs that and returns without opening a socket, and the timer is gone.
\<close>

theorem stop_leaves_reconnect_timer_to_fire_idly:
  assumes "run E a (resilientEventListener E a) tes = Inr s"
    and "map_of (timers s) h = Some (Reconnect, due)"
  shows "map_of (timers (stop s)) h = Some (Reconnect, due)
    \<and> fire_timer E a h ((stop s)\<lparr>now := due\<rparr>)
        = Inr (log Info ''Listener stopped, not reconnecting.'' []
                 (remove_timer h ((stop s)\<lparr>now := due\<rparr>)))
    \<and> map_of (timers (remove_timer h ((stop s)\<lparr>now := due\<rparr>))) h = None"
proof -
  note n = reconnect_handle_not_stored [OF handles_ok_reachable [OF assms(1)] assms(2)]
  have 1: "map_of (timers (stop s)) h = Some (Reconnect, due)"
    using assms(2) n
    by (auto simp: stop_def prims Let_def map_of_filter_keeps split: option.splits)
  have 2: "stopped (stop s)" by (simp add: stop_att)
  from 1 2 show ?thesis
    by (simp add: fire_timer_def connect_def remove_timer_def map_of_removed)
qed

text \<open>
  C9 as the spec states it fails.  The socket of the example listener closed at 0.5 s and
  the reconnect is due at 1.5 s; after \<^verbatim>\<open>stop()\<close> that timer is still scheduled.
\<close>

theorem reconnect_timer_survives_stop:
  "timers closed_state = [(1, Reconnect, 1500)]
   \<and> timers (stop closed_state) = [(1, Reconnect, 1500)] \<and> stopped (stop closed_state)"
  by (simp add: evals')

theorem stop_leaves_reconnect_timer_to_fire_idly_witness:
  "run example_externals example_args (resilientEventListener example_externals example_args)
     [(0, OpenEv 0), (500, CloseEv 0)] = Inr closed_state
   \<and> map_of (timers closed_state) 1 = Some (Reconnect, 1500)
   \<and> map_of (timers (stop closed_state)) 1 = Some (Reconnect, 1500)
   \<and> fire_timer example_externals example_args 1 ((stop closed_state)\<lparr>now := 1500\<rparr>)
        = Inr (log Info ''Listener stopped, not reconnecting.'' []
                 (remove_timer 1 ((stop closed_state)\<lparr>now := 1500\<rparr>)))"
proof -
  have r: "run example_externals example_args
      (resilientEventListener example_externals example_args)
      [(0, OpenEv 0), (500, CloseEv 0)] = Inr closed_state"
    and t: "map_of (timers closed_state) 1 = Some (Reconnect, 1500)"
    by (simp_all add: evals')
  from stop_leaves_reconnect_timer_to_fire_idly [OF r t] r t
  show ?thesis by simp
qed

end
